theory Spec2Isabelle
  imports Main
begin

section \<open>JavaScript values, objects and optional properties\<close>

text \<open>
  The adapter handles DocumentClient attribute values, which are plain JavaScript values.
  Numbers are modelled by integers (the adapter only tests them for truthiness and
  compares them with the empty string).
\<close>

datatype jsval =
    JUndefined
  | JNull
  | JBool bool
  | JNum int
  | JStr string
  | JArr "jsval list"
  | JObj "(string \<times> jsval) list"

text \<open>
  An object is the list of its own enumerable properties in the order in which
  \<^verbatim>\<open>Object.keys\<close> enumerates them. Every property the adapter writes has a name that is
  not an array index (\<^verbatim>\<open>id\<close>, \<^verbatim>\<open>created\<close>, \<^verbatim>\<open>updated\<close>, \<^verbatim>\<open>#param1\<close>,
  \<^verbatim>\<open>:val1\<close>, \<^verbatim>\<open>#field\<close>), so a new property goes to the end of the enumeration and
  an existing one keeps its place.
\<close>

type_synonym obj = "(string \<times> jsval) list"

definition Object_keys :: "('k \<times> 'v) list \<Rightarrow> 'k list" where
  "Object_keys ob = map fst ob"

text \<open>\<^verbatim>\<open>ob[k]\<close>: the value of the property, \<^verbatim>\<open>undefined\<close> when there is none.\<close>

definition get_prop :: "obj \<Rightarrow> string \<Rightarrow> jsval" where
  "get_prop ob k = (case map_of ob k of None \<Rightarrow> JUndefined | Some v \<Rightarrow> v)"

text \<open>\<^verbatim>\<open>ob[k] = v\<close>\<close>

fun set_prop :: "('k \<times> 'v) list \<Rightarrow> 'k \<Rightarrow> 'v \<Rightarrow> ('k \<times> 'v) list" where
  "set_prop [] k v = [(k, v)]"
| "set_prop (p # ps) k v = (if fst p = k then (k, v) # ps else p # set_prop ps k v)"

text \<open>\<^verbatim>\<open>delete ob[k]\<close>\<close>

definition delete_prop :: "('k \<times> 'v) list \<Rightarrow> 'k \<Rightarrow> ('k \<times> 'v) list" where
  "delete_prop ob k = filter (\<lambda>p. fst p \<noteq> k) ob"

text \<open>The truthiness test of \<^verbatim>\<open>if (v)\<close>, \<^verbatim>\<open>a && b\<close> and \<^verbatim>\<open>a || b\<close>.\<close>

fun truthy :: "jsval \<Rightarrow> bool" where
  "truthy JUndefined = False"
| "truthy JNull = False"
| "truthy (JBool b) = b"
| "truthy (JNum n) = (n \<noteq> 0)"
| "truthy (JStr s) = (s \<noteq> [])"
| "truthy (JArr xs) = True"
| "truthy (JObj ps) = True"

text \<open>
  An optional property of a request object: missing, present with the value
  \<^verbatim>\<open>undefined\<close> (which \<^verbatim>\<open>{...a, ...b}\<close> copies like any other value), or present with
  a value.
\<close>

datatype 'a opt = Absent | Undefined | Present 'a

fun is_present :: "'a opt \<Rightarrow> bool" where
  "is_present (Present x) = True"
| "is_present Absent = False"
| "is_present Undefined = False"

text \<open>One property of \<^verbatim>\<open>{...a, ...b}\<close>: the one of \<^verbatim>\<open>b\<close> when \<^verbatim>\<open>b\<close> has it.\<close>

fun override :: "'a opt \<Rightarrow> 'a opt \<Rightarrow> 'a opt" where
  "override a Absent = a"
| "override a Undefined = Undefined"
| "override a (Present x) = Present x"

text \<open>The request objects of the DocumentClient, with the properties the adapter touches.\<close>

record params =
  TableName :: "string opt"
  Key :: "obj opt"
  Item :: "obj opt"
  ProjectionExpression :: "string opt"
  ConditionExpression :: "string opt"
  UpdateExpression :: "string opt"
  ExpressionAttributeNames :: "(string \<times> string) list opt"
  ExpressionAttributeValues :: "obj opt"
  ReturnConsumedCapacity :: "string opt"

definition no_params :: params where
  "no_params = \<lparr> TableName = Absent, Key = Absent, Item = Absent,
     ProjectionExpression = Absent, ConditionExpression = Absent, UpdateExpression = Absent,
     ExpressionAttributeNames = Absent, ExpressionAttributeValues = Absent,
     ReturnConsumedCapacity = Absent \<rparr>"

text \<open>\<^verbatim>\<open>{...a, ...b}\<close>\<close>

definition spread :: "params \<Rightarrow> params \<Rightarrow> params" where
  "spread a b = \<lparr>
     TableName = override (TableName a) (TableName b),
     Key = override (Key a) (Key b),
     Item = override (Item a) (Item b),
     ProjectionExpression = override (ProjectionExpression a) (ProjectionExpression b),
     ConditionExpression = override (ConditionExpression a) (ConditionExpression b),
     UpdateExpression = override (UpdateExpression a) (UpdateExpression b),
     ExpressionAttributeNames =
       override (ExpressionAttributeNames a) (ExpressionAttributeNames b),
     ExpressionAttributeValues =
       override (ExpressionAttributeValues a) (ExpressionAttributeValues b),
     ReturnConsumedCapacity =
       override (ReturnConsumedCapacity a) (ReturnConsumedCapacity b) \<rparr>"

section \<open>Errors\<close>

datatype aws_error = AWSError (name: string) (message: string)

datatype boom_kind = NotFound | Conflict | BadImplementation

datatype boom = Boom (kind: boom_kind) (boom_message: string)

text \<open>
  What a call can throw: the store's error as it came, the error made by
  \<^verbatim>\<open>handleError\<close>, or the \<^verbatim>\<open>TypeError\<close> of reading a property of \<^verbatim>\<open>undefined\<close>.
\<close>

datatype thrown = Raw aws_error | Mapped boom | TypeError

definition handleError :: "aws_error \<Rightarrow> boom" where
  "handleError error =
     (if name error = ''NotFound'' then Boom NotFound ''Requested resource not found.''
      else if name error = ''ConditionalCheckFailedException''
        then Boom Conflict ''Requested resource already exists.''
      else Boom BadImplementation ''Something went wrong with DB server.'')"

section \<open>The adapter and its collaborators\<close>

text \<open>
  The DocumentClient is a parameter: for each request it either fails with an error of
  the store or answers. The answer of \<^verbatim>\<open>get\<close> is \<^verbatim>\<open>data.Item\<close>, \<open>None\<close> when the
  store holds no item under the key.
\<close>

record doc_client =
  client_get :: "params \<Rightarrow> aws_error + obj option"
  client_put :: "params \<Rightarrow> aws_error + unit"
  client_update :: "params \<Rightarrow> aws_error + unit"

record adapter =
  tableName :: string
  schema :: "obj option"
  doc :: doc_client

text \<open>\<^verbatim>\<open>this.schema && this.schema.f\<close>\<close>

definition manages :: "adapter \<Rightarrow> string \<Rightarrow> bool" where
  "manages ad f = (case schema ad of None \<Rightarrow> False | Some s \<Rightarrow> truthy (get_prop s f))"

definition extendParams :: "params \<Rightarrow> string \<Rightarrow> params" where
  "extendParams ps tn =
     ps\<lparr> TableName := Present tn, ReturnConsumedCapacity := Present ''INDEXES'' \<rparr>"

text \<open>
  What a call leaves behind: its result (the value the promise resolves to, or what it
  rejects with) and the requests it has sent to the store, oldest first.
\<close>

record response =
  result :: "thrown + obj"
  sent :: "params list"

text \<open>
  The operations that write into the attribute map they are given also return that
  map as the caller finds it afterwards.
\<close>

record outcome = response +
  caller_item :: obj

section \<open>Projection expressions\<close>

text \<open>\<^verbatim>\<open>fields.split(',')\<close>\<close>

fun split_comma :: "string \<Rightarrow> string list" where
  "split_comma [] = [[]]"
| "split_comma (c # cs) =
     (if c = CHR '','' then [] # split_comma cs
      else (case split_comma cs of [] \<Rightarrow> [[c]] | w # ws \<Rightarrow> (c # w) # ws))"

text \<open>The value \<^verbatim>\<open>Array.isArray\<close> is applied to: a string or an array of strings.\<close>

datatype str_or_array = AString string | AnArray "string list"

fun Array_isArray :: "str_or_array \<Rightarrow> bool" where
  "Array_isArray (AString s) = False"
| "Array_isArray (AnArray xs) = True"

record projection =
  proj_ProjectionExpression :: string
  proj_ExpressionAttributeNames :: "(string \<times> string) list"

text \<open>
  The body of \<^verbatim>\<open>forEach\<close>: the counter \<^verbatim>\<open>i\<close> and the object built so far.
\<close>

definition projection_step :: "nat \<times> projection \<Rightarrow> string \<Rightarrow> nat \<times> projection" where
  "projection_step st field =
     (let i = fst st; pe = snd st;
          pe1 = (if i = 0
                 then pe\<lparr> proj_ProjectionExpression :=
                            proj_ProjectionExpression pe @ ''#'' @ field \<rparr>
                 else pe\<lparr> proj_ProjectionExpression :=
                            proj_ProjectionExpression pe @ '', #'' @ field \<rparr>);
          pe2 = pe1\<lparr> proj_ExpressionAttributeNames :=
                       set_prop (proj_ExpressionAttributeNames pe1) (''#'' @ field) field \<rparr>
      in (i + 1, pe2))"

definition projection_loop :: "string list \<Rightarrow> projection" where
  "projection_loop fieldsObj =
     snd (foldl projection_step
            (0, \<lparr> proj_ProjectionExpression = [], proj_ExpressionAttributeNames = [] \<rparr>)
            fieldsObj)"

text \<open>
  \<^verbatim>\<open>projectionExpression\<close> of \<^verbatim>\<open>index.ts\<close>: the split goes to \<^verbatim>\<open>fieldsObj\<close>, and the
  array test is made on the parameter \<^verbatim>\<open>fields\<close> (here \<open>fields_str\<close>). \<open>None\<close> is the \<^verbatim>\<open>undefined\<close> of the
  bare \<^verbatim>\<open>return\<close>.
\<close>

definition projectionExpression :: "string \<Rightarrow> projection option" where
  "projectionExpression fields_str =
     (let fieldsObj = split_comma fields_str
      in if \<not> Array_isArray (AString fields_str) then None
         else Some (projection_loop fieldsObj))"

text \<open>
  \<^verbatim>\<open>projectionExpression\<close> of the earlier JavaScript version: the split is assigned
  back to \<^verbatim>\<open>fields\<close> (here \<open>fields_arr\<close>), so the array test is made on the array. \<open>None\<close> stands for the
  empty string it returns when the test fails.
\<close>

definition projectionExpression_js :: "string \<Rightarrow> projection option" where
  "projectionExpression_js fields_str =
     (let fields_arr = split_comma fields_str
      in if \<not> Array_isArray (AnArray fields_arr) then None
         else Some (projection_loop fields_arr))"

text \<open>
  What the specification asks of the builder: one \<^verbatim>\<open>#field\<close> per field, in the order of
  the list, joined by a comma and a space, and each placeholder mapped to its field.
\<close>

fun join_fields :: "string list \<Rightarrow> string" where
  "join_fields [] = []"
| "join_fields (f # fs) = ''#'' @ f @ concat (map (\<lambda>g. '', #'' @ g) fs)"

definition field_names :: "string list \<Rightarrow> (string \<times> string) list" where
  "field_names fs = foldl (\<lambda>m f. set_prop m (''#'' @ f) f) [] fs"

section \<open>Reading one item\<close>

text \<open>\<^verbatim>\<open>{...ps, ...pe}\<close> for the result of \<^verbatim>\<open>projectionExpression\<close>; spreading \<^verbatim>\<open>undefined\<close> adds nothing.\<close>

definition spread_projection :: "params \<Rightarrow> projection option \<Rightarrow> params" where
  "spread_projection ps pe =
     (case pe of
        None \<Rightarrow> ps
      | Some r \<Rightarrow> ps\<lparr> ProjectionExpression := Present (proj_ProjectionExpression r),
                      ExpressionAttributeNames := Present (proj_ExpressionAttributeNames r) \<rparr>)"

text \<open>\<^verbatim>\<open>params && params.ProjectionExpression\<close>\<close>

definition has_projection :: "params option \<Rightarrow> bool" where
  "has_projection originParams =
     (case originParams of
        None \<Rightarrow> False
      | Some ps \<Rightarrow> (case ProjectionExpression ps of Present s \<Rightarrow> s \<noteq> [] | _ \<Rightarrow> False))"

definition projection_of :: "params \<Rightarrow> string" where
  "projection_of ps = (case ProjectionExpression ps of Present s \<Rightarrow> s | _ \<Rightarrow> [])"

text \<open>
  \<^verbatim>\<open>findOne(key, originParams?)\<close>. The object \<^verbatim>\<open>{ name: 'NotFound' }\<close> carries no message.
\<close>

definition findOne :: "adapter \<Rightarrow> obj \<Rightarrow> params option \<Rightarrow> response" where
  "findOne ad key originParams =
     (let params1 = (if has_projection originParams
                     then map_option (\<lambda>ps. spread_projection ps
                            (projectionExpression (projection_of ps))) originParams
                     else originParams);
          params2 = extendParams
                      ((case params1 of None \<Rightarrow> no_params | Some ps \<Rightarrow> ps)
                         \<lparr> TableName := Present (tableName ad), Key := Present key \<rparr>)
                      (tableName ad)
      in case client_get (doc ad) params2 of
           Inl error \<Rightarrow> \<lparr> result = Inl (Raw error), sent = [params2] \<rparr>
         | Inr data_Item \<Rightarrow>
             (case data_Item of
                Some it \<Rightarrow> \<lparr> result = Inr it, sent = [params2] \<rparr>
              | None \<Rightarrow> \<lparr> result = Inl (Mapped (handleError (AWSError ''NotFound'' []))),
                          sent = [params2] \<rparr>))"

section \<open>Creating an item\<close>

text \<open>
  \<^verbatim>\<open>create(item, itemId?)\<close>, where \<^verbatim>\<open>item\<close> is the request and \<^verbatim>\<open>item.Item\<close> the
  attribute map. The collaborators' answers are parameters: \<open>uuid\<close> is what
  \<^verbatim>\<open>uuidV1()\<close> returns, \<open>t_created\<close> and \<open>t_updated\<close> are what
  \<^verbatim>\<open>new Date().toISOString()\<close> returns where \<^verbatim>\<open>created\<close> is stamped and where
  \<^verbatim>\<open>updated\<close> is. Reading \<^verbatim>\<open>item.Item.accountId\<close> for the log line throws when the
  request has no \<^verbatim>\<open>Item\<close>; there is then no attribute map to write into, and nothing is sent.
\<close>

definition create_id :: "string option \<Rightarrow> string \<Rightarrow> string" where
  "create_id itemId uuid =
     (case itemId of None \<Rightarrow> uuid | Some s \<Rightarrow> if s \<noteq> [] then s else uuid)"

definition create_stamp :: "adapter \<Rightarrow> string \<Rightarrow> string \<Rightarrow> string \<Rightarrow> obj \<Rightarrow> obj" where
  "create_stamp ad ident t_created t_updated it =
     (let it1 = (if manages ad ''id'' then set_prop it ''id'' (JStr ident) else it);
          it2 = (if manages ad ''created''
                 then set_prop it1 ''created'' (JStr t_created) else it1)
      in if manages ad ''updated''
         then (if truthy (get_prop it2 ''created'')
               then set_prop it2 ''updated'' (get_prop it2 ''created'')
               else set_prop it2 ''updated'' (JStr t_updated))
         else it2)"

definition create_respondData :: "adapter \<Rightarrow> obj \<Rightarrow> obj" where
  "create_respondData ad it =
     (let r1 = (if manages ad ''id'' then set_prop [] ''id'' (get_prop it ''id'') else []);
          r2 = (if manages ad ''updated''
                then set_prop r1 ''updated'' (get_prop it ''updated'') else r1)
      in if manages ad ''created''
         then set_prop r2 ''created'' (get_prop it ''created'') else r2)"

definition create :: "adapter \<Rightarrow> string \<Rightarrow> string \<Rightarrow> string \<Rightarrow> params \<Rightarrow> string option \<Rightarrow> outcome" where
  "create ad uuid t_created t_updated item itemId =
     (let ident = create_id itemId uuid
      in case Item item of
           Present it \<Rightarrow>
             (let it' = create_stamp ad ident t_created t_updated it;
                  ps = extendParams (item\<lparr> Item := Present it' \<rparr>) (tableName ad)
              in case client_put (doc ad) ps of
                   Inr ack \<Rightarrow> \<lparr> result = Inr (create_respondData ad it'), sent = [ps],
                                caller_item = it' \<rparr>
                 | Inl error \<Rightarrow> \<lparr> result = Inl (Raw error), sent = [ps], caller_item = it' \<rparr>)
         | _ \<Rightarrow> \<lparr> result = Inl TypeError, sent = [], caller_item = [] \<rparr>)"

section \<open>Replacing an item\<close>

text \<open>
  \<^verbatim>\<open>update(item)\<close>, where \<^verbatim>\<open>item\<close> is the request. The stamp is written to
  \<^verbatim>\<open>item.Item.Item.updated\<close>: the property \<^verbatim>\<open>updated\<close> of the attribute named
  \<^verbatim>\<open>Item\<close> inside the attribute map. When that attribute is an object the stamp goes
  into it; when it is an array the array gets a property that is none of its elements
  (the model leaves the array as it is); when it is missing, \<^verbatim>\<open>null\<close> or a primitive
  value the assignment throws, in the strict mode of a class body, before the request
  is built. The response reads \<^verbatim>\<open>item.Item.updated\<close>.
\<close>

definition update_stamp :: "string \<Rightarrow> obj \<Rightarrow> thrown + obj" where
  "update_stamp now it =
     (case get_prop it ''Item'' of
        JObj ps \<Rightarrow> Inr (set_prop it ''Item'' (JObj (set_prop ps ''updated'' (JStr now))))
      | JArr xs \<Rightarrow> Inr it
      | _ \<Rightarrow> Inl TypeError)"

text \<open>\<^verbatim>\<open>respondData\<close> of \<^verbatim>\<open>update\<close>\<close>

definition update_respond :: "adapter \<Rightarrow> obj \<Rightarrow> obj" where
  "update_respond ad it =
     (if manages ad ''updated'' then set_prop [] ''updated'' (get_prop it ''updated'') else [])"

text \<open>
  Reading \<^verbatim>\<open>item.Item.accountId\<close> for the log line throws when the request has no
  \<^verbatim>\<open>Item\<close>. An error of the store is mapped by \<^verbatim>\<open>handleError\<close>.
\<close>

definition update :: "adapter \<Rightarrow> string \<Rightarrow> params \<Rightarrow> outcome" where
  "update ad now item =
     (case Item item of
        Present it \<Rightarrow>
          (case (if manages ad ''updated'' then update_stamp now it else Inr it) of
             Inl err \<Rightarrow> \<lparr> result = Inl err, sent = [], caller_item = it \<rparr>
           | Inr it' \<Rightarrow>
               (let ps = extendParams (item\<lparr> Item := Present it' \<rparr>) (tableName ad)
                in case client_put (doc ad) ps of
                     Inr ack \<Rightarrow> \<lparr> result = Inr (update_respond ad it'), sent = [ps],
                                  caller_item = it' \<rparr>
                   | Inl error \<Rightarrow> \<lparr> result = Inl (Mapped (handleError error)), sent = [ps],
                                    caller_item = it' \<rparr>))
      | _ \<Rightarrow> \<lparr> result = Inl TypeError, sent = [], caller_item = [] \<rparr>)"

section \<open>Updating attributes\<close>

text \<open>The decimal numeral that a template literal makes of the counter.\<close>

definition digit_char :: "nat \<Rightarrow> char" where
  "digit_char d =
     (if d = 0 then CHR ''0'' else if d = 1 then CHR ''1'' else if d = 2 then CHR ''2''
      else if d = 3 then CHR ''3'' else if d = 4 then CHR ''4'' else if d = 5 then CHR ''5''
      else if d = 6 then CHR ''6'' else if d = 7 then CHR ''7'' else if d = 8 then CHR ''8''
      else CHR ''9'')"

fun number_to_string :: "nat \<Rightarrow> string" where
  "number_to_string n =
     (if n < 10 then [digit_char n]
      else number_to_string (n div 10) @ [digit_char (n mod 10)])"

declare number_to_string.simps [simp del]

text \<open>
  The variables of the compiling loop: the counters \<^verbatim>\<open>i\<close>, \<^verbatim>\<open>set\<close> and \<^verbatim>\<open>remove\<close>,
  the two clause strings, and the request whose name and value maps it fills.
\<close>

record compile_state =
  cs_i :: nat
  cs_set :: nat
  cs_remove :: nat
  cs_SetAction :: string
  cs_RemoveAction :: string
  cs_params :: params

text \<open>\<^verbatim>\<open>if (m) { m[k] = v }\<close> on an optional map.\<close>

fun set_if_present :: "('k \<times> 'v) list opt \<Rightarrow> 'k \<Rightarrow> 'v \<Rightarrow> ('k \<times> 'v) list opt" where
  "set_if_present (Present m) k v = Present (set_prop m k v)"
| "set_if_present Absent k v = Absent"
| "set_if_present Undefined k v = Undefined"

definition compile_step :: "obj \<Rightarrow> compile_state \<Rightarrow> string \<Rightarrow> compile_state" where
  "compile_step item st valueKey =
     (let i = cs_i st + 1;
          ps = cs_params st;
          ps1 = ps\<lparr> ExpressionAttributeNames :=
                      set_if_present (ExpressionAttributeNames ps)
                        (''#param'' @ number_to_string i) valueKey \<rparr>
      in if get_prop item valueKey \<noteq> JStr [] \<and> is_present (ExpressionAttributeValues ps1)
         then
           (let s = cs_set st + 1
            in st\<lparr> cs_i := i, cs_set := s,
                   cs_params := ps1\<lparr> ExpressionAttributeValues :=
                                  set_if_present (ExpressionAttributeValues ps1)
                                    ('':val'' @ number_to_string i) (get_prop item valueKey) \<rparr>,
                   cs_SetAction := cs_SetAction st @
                     (if s = 1
                      then ''SET #param'' @ number_to_string i @ '' = :val'' @ number_to_string i
                      else '', #param'' @ number_to_string i @ '' = :val'' @ number_to_string i) \<rparr>)
         else
           (let r = cs_remove st + 1
            in st\<lparr> cs_i := i, cs_remove := r, cs_params := ps1,
                   cs_RemoveAction := cs_RemoveAction st @
                     (if r = 1 then ''REMOVE #param'' @ number_to_string i
                      else '', #param'' @ number_to_string i) \<rparr>))"

definition compile_init :: "params \<Rightarrow> compile_state" where
  "compile_init ps =
     \<lparr> cs_i = 0, cs_set = 0, cs_remove = 0, cs_SetAction = '' '', cs_RemoveAction = '' '',
       cs_params = ps \<rparr>"

text \<open>\<^verbatim>\<open>Object.keys(item).forEach(...)\<close>\<close>

definition compile_loop :: "obj \<Rightarrow> params \<Rightarrow> compile_state" where
  "compile_loop item ps = foldl (compile_step item) (compile_init ps) (Object_keys item)"

text \<open>What \<^verbatim>\<open>+=\<close> reads from the \<^verbatim>\<open>UpdateExpression\<close> property before appending.\<close>

definition string_of_opt :: "string opt \<Rightarrow> string" where
  "string_of_opt p = (case p of Present s \<Rightarrow> s | _ \<Rightarrow> ''undefined'')"

definition compile_finish :: "compile_state \<Rightarrow> params" where
  "compile_finish st =
     (let ps = cs_params st;
          ps1 = (if cs_set st = 0 then ps\<lparr> ExpressionAttributeValues := Absent \<rparr> else ps)
      in ps1\<lparr> UpdateExpression :=
                Present (string_of_opt (UpdateExpression ps1)
                           @ cs_SetAction st @ cs_RemoveAction st) \<rparr>)"

text \<open>The stamp of \<^verbatim>\<open>updated\<close>, with \<open>now\<close> what \<^verbatim>\<open>new Date().toISOString()\<close> returns.\<close>

definition stamp_updated :: "adapter \<Rightarrow> string \<Rightarrow> obj \<Rightarrow> obj" where
  "stamp_updated ad now item =
     (if manages ad ''updated'' then set_prop item ''updated'' (JStr now) else item)"

text \<open>\<^verbatim>\<open>keys.forEach(k => { if (item[k]) { delete item[k]; } })\<close>\<close>

definition strip_step :: "obj \<Rightarrow> string \<Rightarrow> obj" where
  "strip_step item k = (if truthy (get_prop item k) then delete_prop item k else item)"

definition strip_keys :: "obj \<Rightarrow> string list \<Rightarrow> obj" where
  "strip_keys item keys = foldl strip_step item keys"

definition update_defaults :: params where
  "update_defaults = no_params\<lparr> UpdateExpression := Present [],
       ExpressionAttributeNames := Present [], ExpressionAttributeValues := Present [] \<rparr>"

definition update_respondData :: "adapter \<Rightarrow> obj \<Rightarrow> obj \<Rightarrow> obj" where
  "update_respondData ad item key =
     (let r1 = (if manages ad ''updated''
                then set_prop [] ''updated'' (get_prop item ''updated'') else [])
      in set_prop r1 ''id'' (get_prop key ''id''))"

text \<open>
  \<^verbatim>\<open>updateWithAttributes(originParams, item)\<close>. Reading \<^verbatim>\<open>originParams.Key.accountId\<close>
  for the log line throws when the request has no \<^verbatim>\<open>Key\<close>, before anything is written.
\<close>

definition updateWithAttributes :: "adapter \<Rightarrow> string \<Rightarrow> params \<Rightarrow> obj \<Rightarrow> outcome" where
  "updateWithAttributes ad now originParams item =
     (case Key originParams of
        Present key \<Rightarrow>
          (let item1 = stamp_updated ad now item;
               item2 = strip_keys item1 (Object_keys key);
               ps0 = extendParams (spread update_defaults originParams) (tableName ad);
               ps = compile_finish (compile_loop item2 ps0)
           in case client_update (doc ad) ps of
                Inr ack \<Rightarrow> \<lparr> result = Inr (update_respondData ad item2 key), sent = [ps],
                             caller_item = item2 \<rparr>
              | Inl error \<Rightarrow> \<lparr> result = Inl (Mapped (handleError error)), sent = [ps],
                               caller_item = item2 \<rparr>)
      | _ \<Rightarrow> \<lparr> result = Inl TypeError, sent = [], caller_item = item \<rparr>)"

section \<open>The compiled update, as the specification words it\<close>

text \<open>
  The fields of the attribute map with their placeholder indices: the first field has
  index 1, and the index does not depend on the clause a field goes to.
\<close>

definition indexed :: "string list \<Rightarrow> (nat \<times> string) list" where
  "indexed ks = enumerate 1 ks"

definition name_placeholder :: "nat \<Rightarrow> string" where
  "name_placeholder j = ''#param'' @ number_to_string j"

definition value_placeholder :: "nat \<Rightarrow> string" where
  "value_placeholder j = '':val'' @ number_to_string j"

definition set_term :: "nat \<Rightarrow> string" where
  "set_term j = name_placeholder j @ '' = '' @ value_placeholder j"

text \<open>A clause: the keyword before the first entry, a comma before each later one.\<close>

fun clause :: "string \<Rightarrow> string list \<Rightarrow> string" where
  "clause kw [] = []"
| "clause kw (t # ts) = kw @ '' '' @ t @ concat (map (\<lambda>u. '', '' @ u) ts)"

text \<open>
  A field is set when its value is not the empty string and the request has a value map
  (\<open>vp\<close>); otherwise it is removed.
\<close>

definition is_set_field :: "bool \<Rightarrow> obj \<Rightarrow> nat \<times> string \<Rightarrow> bool" where
  "is_set_field vp item e = (get_prop item (snd e) \<noteq> JStr [] \<and> vp)"

definition set_fields :: "bool \<Rightarrow> obj \<Rightarrow> string list \<Rightarrow> (nat \<times> string) list" where
  "set_fields vp item ks = filter (is_set_field vp item) (indexed ks)"

definition remove_fields :: "bool \<Rightarrow> obj \<Rightarrow> string list \<Rightarrow> (nat \<times> string) list" where
  "remove_fields vp item ks = filter (\<lambda>e. \<not> is_set_field vp item e) (indexed ks)"

definition register_names ::
  "(string \<times> string) list opt \<Rightarrow> (nat \<times> string) list \<Rightarrow> (string \<times> string) list opt" where
  "register_names m es = foldl (\<lambda>m e. set_if_present m (name_placeholder (fst e)) (snd e)) m es"

definition register_values :: "obj \<Rightarrow> obj opt \<Rightarrow> (nat \<times> string) list \<Rightarrow> obj opt" where
  "register_values item m es =
     foldl (\<lambda>m e. set_if_present m (value_placeholder (fst e)) (get_prop item (snd e))) m es"

definition names_of :: "params \<Rightarrow> (string \<times> string) list" where
  "names_of ps = (case ExpressionAttributeNames ps of Present m \<Rightarrow> m | _ \<Rightarrow> [])"

definition values_of :: "params \<Rightarrow> obj" where
  "values_of ps = (case ExpressionAttributeValues ps of Present m \<Rightarrow> m | _ \<Rightarrow> [])"

text \<open>
  The variables of the loop after the fields \<open>ks\<close>, said without the loop: the counters
  count the fields, the set ones and the removed ones; each clause lists its fields'
  placeholders in the order of the fields; every field has its name registered, every set
  field its value.
\<close>

definition compiled :: "obj \<Rightarrow> params \<Rightarrow> string list \<Rightarrow> compile_state" where
  "compiled item ps ks =
     (let vp = is_present (ExpressionAttributeValues ps);
          S = set_fields vp item ks; R = remove_fields vp item ks
      in \<lparr> cs_i = length ks, cs_set = length S, cs_remove = length R,
           cs_SetAction = '' '' @ clause ''SET'' (map (\<lambda>e. set_term (fst e)) S),
           cs_RemoveAction = '' '' @ clause ''REMOVE'' (map (\<lambda>e. name_placeholder (fst e)) R),
           cs_params = ps\<lparr>
             ExpressionAttributeNames := register_names (ExpressionAttributeNames ps) (indexed ks),
             ExpressionAttributeValues := register_values item (ExpressionAttributeValues ps) S \<rparr> \<rparr>)"

text \<open>The attribute map as the compiling loop reads it: stamped, then stripped of the key.\<close>

definition surviving :: "adapter \<Rightarrow> string \<Rightarrow> obj \<Rightarrow> obj \<Rightarrow> obj" where
  "surviving ad now key item = strip_keys (stamp_updated ad now item) (Object_keys key)"

text \<open>The request before the loop: the defaults, the caller's parameters over them.\<close>

definition base_params :: "adapter \<Rightarrow> params \<Rightarrow> params" where
  "base_params ad originParams =
     extendParams (spread update_defaults originParams) (tableName ad)"

text \<open>The entries of an optional map; none when the property is missing or \<^verbatim>\<open>undefined\<close>.\<close>

definition entries :: "'a list opt \<Rightarrow> 'a list" where
  "entries m = (case m of Present x \<Rightarrow> x | _ \<Rightarrow> [])"

section \<open>Stores and adapters for the examples\<close>

definition accepting_client :: doc_client where
  "accepting_client =
     \<lparr> client_get = (\<lambda>ps. Inr None), client_put = (\<lambda>ps. Inr ()),
       client_update = (\<lambda>ps. Inr ()) \<rparr>"

definition rejecting_client :: "aws_error \<Rightarrow> doc_client" where
  "rejecting_client e =
     \<lparr> client_get = (\<lambda>ps. Inl e), client_put = (\<lambda>ps. Inl e), client_update = (\<lambda>ps. Inl e) \<rparr>"

definition plain_adapter :: "doc_client \<Rightarrow> adapter" where
  "plain_adapter c = \<lparr> tableName = ''shifts'', schema = None, doc = c \<rparr>"

definition schema_adapter :: "obj \<Rightarrow> doc_client \<Rightarrow> adapter" where
  "schema_adapter s c = \<lparr> tableName = ''shifts'', schema = Some s, doc = c \<rparr>"

definition key_1 :: obj where
  "key_1 = [(''id'', JStr ''1'')]"

definition update_request :: "obj \<Rightarrow> params" where
  "update_request key = no_params\<lparr> Key := Present key \<rparr>"

definition put_request :: "obj \<Rightarrow> params" where
  "put_request it = no_params\<lparr> Item := Present it \<rparr>"

section \<open>Objects\<close>

lemma get_prop_set_prop:
  "get_prop (set_prop ob k v) k' = (if k' = k then v else get_prop ob k')"
  by (induction ob) (auto simp: get_prop_def)

lemma get_prop_delete_prop:
  "get_prop (delete_prop ob k) k' = (if k' = k then JUndefined else get_prop ob k')"
  by (induction ob) (auto simp: get_prop_def delete_prop_def)

lemma set_set_prop: "set (set_prop m k v) \<subseteq> insert (k, v) (set m)"
  by (induction m) auto

lemma extendParams_Key [simp]: "Key (extendParams ps tn) = Key ps"
  by (simp add: extendParams_def)

lemma set_prop_new: "k \<notin> fst ` set m \<Longrightarrow> set_prop m k v = m @ [(k, v)]"
  by (induction m) auto

lemma map_of_set_prop: "map_of (set_prop m k v) = (map_of m)(k \<mapsto> v)"
  by (induction m) auto

subsection \<open>Stripping the key\<close>

text \<open>Stripping the key keeps exactly the fields that are not a truthy field of the key.\<close>

lemma strip_step_filter:
  "strip_step item k = filter (\<lambda>p. \<not> (fst p = k \<and> truthy (get_prop item k))) item"
  by (simp add: strip_step_def delete_prop_def)

lemma get_prop_filter_keep:
  "P k \<Longrightarrow> get_prop (filter (\<lambda>p. P (fst p)) item) k = get_prop item k"
  by (induction item) (auto simp: get_prop_def)

lemma strip_keys_filter:
  "strip_keys item ks =
     filter (\<lambda>p. \<not> (fst p \<in> set ks \<and> truthy (get_prop item (fst p)))) item"
proof (induction ks arbitrary: item)
  case Nil
  show ?case by (simp add: strip_keys_def)
next
  case (Cons k ks)
  let ?item1 = "strip_step item k"
  have eq: "?item1 = filter (\<lambda>p. \<not> (fst p = k \<and> truthy (get_prop item k))) item"
    by (rule strip_step_filter)
  have keep: "get_prop ?item1 (fst p) = get_prop item (fst p)" if "p \<in> set ?item1" for p
  proof -
    from that eq have "\<not> (fst p = k \<and> truthy (get_prop item k))" by auto
    then show ?thesis
      unfolding eq
      using get_prop_filter_keep [of "\<lambda>x. \<not> (x = k \<and> truthy (get_prop item k))" "fst p" item]
      by simp
  qed
  have "strip_keys item (k # ks) = strip_keys ?item1 ks"
    by (simp add: strip_keys_def)
  also have "\<dots> = filter (\<lambda>p. \<not> (fst p \<in> set ks \<and> truthy (get_prop ?item1 (fst p)))) ?item1"
    by (rule Cons.IH)
  also have "\<dots> = filter (\<lambda>p. \<not> (fst p \<in> set ks \<and> truthy (get_prop item (fst p)))) ?item1"
    by (rule filter_cong) (auto simp: keep)
  also have "\<dots> = filter (\<lambda>p. \<not> (fst p \<in> set (k # ks) \<and> truthy (get_prop item (fst p)))) item"
    unfolding eq by (auto intro: filter_cong)
  finally show ?case .
qed

lemma keys_strip_keys:
  "set (Object_keys (strip_keys item ks)) =
     {k \<in> set (Object_keys item). \<not> (k \<in> set ks \<and> truthy (get_prop item k))}"
  by (auto simp: strip_keys_filter Object_keys_def)

lemma get_prop_strip_keys:
  "get_prop (strip_keys item ks) k =
     (if k \<in> set ks \<and> truthy (get_prop item k) then JUndefined else get_prop item k)"
proof (cases "k \<in> set ks \<and> truthy (get_prop item k)")
  case True
  then have "k \<notin> fst ` set (strip_keys item ks)"
    by (auto simp: strip_keys_filter)
  then have "map_of (strip_keys item ks) k = None"
    by (simp add: map_of_eq_None_iff)
  with True show ?thesis by (simp add: get_prop_def)
next
  case False
  then show ?thesis
    unfolding strip_keys_filter
    using get_prop_filter_keep [of "\<lambda>x. \<not> (x \<in> set ks \<and> truthy (get_prop item x))" k item]
    by auto
qed

section \<open>Projection expressions\<close>

lemma projectionExpression_undefined: "projectionExpression fields_str = None"
  by (simp add: projectionExpression_def)

text \<open>The loop of the builder makes what the specification asks, field by field.\<close>

lemma join_fields_snoc:
  "join_fields (fs @ [f]) = (if fs = [] then ''#'' @ f else join_fields fs @ '', #'' @ f)"
  by (cases fs) simp_all

lemma projection_fold:
  "foldl projection_step
     (0, \<lparr> proj_ProjectionExpression = [], proj_ExpressionAttributeNames = [] \<rparr>) fs =
   (length fs, \<lparr> proj_ProjectionExpression = join_fields fs,
                 proj_ExpressionAttributeNames = field_names fs \<rparr>)"
proof (induction fs rule: rev_induct)
  case Nil
  show ?case by (simp add: field_names_def)
next
  case (snoc f fs)
  then show ?case
    by (simp add: projection_step_def Let_def join_fields_snoc field_names_def)
qed

lemma projectionExpression_js_builds:
  "projectionExpression_js fields_str =
     Some \<lparr> proj_ProjectionExpression = join_fields (split_comma fields_str),
            proj_ExpressionAttributeNames = field_names (split_comma fields_str) \<rparr>"
  by (simp add: projectionExpression_js_def projection_loop_def projection_fold Let_def)

lemma field_names_distinct:
  "distinct fs \<Longrightarrow> field_names fs = map (\<lambda>f. (''#'' @ f, f)) fs"
proof (induction fs rule: rev_induct)
  case Nil
  show ?case by (simp add: field_names_def)
next
  case (snoc f fs)
  then have ih: "field_names fs = map (\<lambda>f. (''#'' @ f, f)) fs" by simp
  from snoc.prems have "''#'' @ f \<notin> fst ` set (map (\<lambda>f. (''#'' @ f, f)) fs)" by auto
  then have "set_prop (field_names fs) (''#'' @ f) f = field_names fs @ [(''#'' @ f, f)]"
    unfolding ih by (rule set_prop_new)
  moreover have "field_names (fs @ [f]) = set_prop (field_names fs) (''#'' @ f) f"
    by (simp add: field_names_def)
  ultimately show ?case by (simp add: ih)
qed

text \<open>
  With a builder that returns \<^verbatim>\<open>undefined\<close>, \<^verbatim>\<open>findOne\<close> sends the list of fields as it was
  given, and no names.
\<close>

lemma findOne_sends_projection_as_given:
  "sent (findOne (plain_adapter c) key_1
           (Some (no_params\<lparr> ProjectionExpression := Present ''a,b,c'' \<rparr>))) =
     [no_params\<lparr> TableName := Present ''shifts'', Key := Present key_1,
         ProjectionExpression := Present ''a,b,c'',
         ReturnConsumedCapacity := Present ''INDEXES'' \<rparr>]"
  by (simp add: findOne_def Let_def has_projection_def projection_of_def no_params_def
      projectionExpression_def spread_projection_def extendParams_def plain_adapter_def
      split: sum.splits option.splits)

text \<open>
  C6. The builder should turn \<^verbatim>\<open>"a,b,c"\<close> into the expression \<^verbatim>\<open>"#a, #b, #c"\<close> with the
  names \<^verbatim>\<open>{#a: a, #b: b, #c: c}\<close>, and return an object for every list of fields. The
  earlier JavaScript version does; the version of \<^verbatim>\<open>index.ts\<close> tests the string
  instead of the array it has split off and returns \<^verbatim>\<open>undefined\<close>, for this and for
  every other input.
\<close>

theorem projectionExpression_abc:
  "projectionExpression ''a,b,c'' = None \<and>
   projectionExpression fields_str = None \<and>
   projectionExpression_js ''a,b,c'' =
     Some \<lparr> proj_ProjectionExpression = ''#a, #b, #c'',
            proj_ExpressionAttributeNames = [(''#a'', ''a''), (''#b'', ''b''), (''#c'', ''c'')] \<rparr>"
  by (simp add: projectionExpression_def projectionExpression_js_def projection_loop_def
      projection_step_def)

section \<open>Error mapping\<close>

text \<open>
  C8. When the store holds no item under the key (every \<^verbatim>\<open>get\<close> for that key is answered
  without an \<^verbatim>\<open>Item\<close>), \<^verbatim>\<open>findOne\<close> fails with the mapped error of kind \<open>NotFound\<close>,
  whatever the optional parameters are.
\<close>

theorem findOne_absent_NotFound:
  assumes "\<forall>ps. Key ps = Present key \<longrightarrow> client_get (doc ad) ps = Inr None"
  shows "result (findOne ad key originParams) =
           Inl (Mapped (Boom NotFound ''Requested resource not found.''))"
proof -
  let ?ps = "extendParams
     ((case (if has_projection originParams
             then map_option (\<lambda>ps. spread_projection ps
                    (projectionExpression (projection_of ps))) originParams
             else originParams) of None \<Rightarrow> no_params | Some ps \<Rightarrow> ps)
        \<lparr> TableName := Present (tableName ad), Key := Present key \<rparr>) (tableName ad)"
  have "Key ?ps = Present key" by simp
  with assms have "client_get (doc ad) ?ps = Inr None" by blast
  then show ?thesis
    by (simp add: findOne_def Let_def handleError_def)
qed

theorem findOne_absent_NotFound_witness:
  "result (findOne (plain_adapter accepting_client) [(''id'', JStr ''missing'')] None) =
     Inl (Mapped (Boom NotFound ''Requested resource not found.''))"
proof -
  have h: "\<forall>ps. Key ps = Present [(''id'', JStr ''missing'')] \<longrightarrow>
      client_get (doc (plain_adapter accepting_client)) ps = Inr None"
    by (simp add: plain_adapter_def accepting_client_def)
  show ?thesis using findOne_absent_NotFound [OF h, of None] by simp
qed

text \<open>
  C7. A create whose write the store rejects with \<^verbatim>\<open>ConditionalCheckFailedException\<close>
  should fail with the mapped error of kind \<open>Conflict\<close>. The code rethrows the store's
  error as it came: \<^verbatim>\<open>create\<close> fails with the raw error, which is not the error
  \<^verbatim>\<open>handleError\<close> makes of it (of kind \<open>Conflict\<close>).
\<close>

theorem create_rethrows_raw_error:
  assumes "Item item = Present it"
    and "\<forall>ps. client_put (doc ad) ps = Inl e"
    and "name e = ''ConditionalCheckFailedException''"
  shows "result (create ad uuid t_created t_updated item itemId) = Inl (Raw e) \<and>
         kind (handleError e) = Conflict \<and>
         result (create ad uuid t_created t_updated item itemId) \<noteq> Inl (Mapped (handleError e))"
  using assms by (simp add: create_def Let_def handleError_def)

theorem create_rethrows_raw_error_witness:
  "result (create (plain_adapter (rejecting_client
       (AWSError ''ConditionalCheckFailedException'' ''The conditional request failed'')))
     ''uuid-1'' ''2019-05-01T10:00:00.000Z'' ''2019-05-01T10:00:00.001Z''
     (put_request [(''name'', JStr ''Bob'')]) None) =
   Inl (Raw (AWSError ''ConditionalCheckFailedException'' ''The conditional request failed''))"
proof -
  let ?e = "AWSError ''ConditionalCheckFailedException'' ''The conditional request failed''"
  have a: "Item (put_request [(''name'', JStr ''Bob'')]) = Present [(''name'', JStr ''Bob'')]"
    by (simp add: put_request_def no_params_def)
  have b: "\<forall>ps. client_put (doc (plain_adapter (rejecting_client ?e))) ps = Inl ?e"
    by (simp add: plain_adapter_def rejecting_client_def)
  have c: "name ?e = ''ConditionalCheckFailedException''" by simp
  show ?thesis using create_rethrows_raw_error [OF a b c] by simp
qed

section \<open>Decimal numerals\<close>

text \<open>Different counters give different numerals, so no placeholder is used twice.\<close>

lemma digit_cases:
  "d < (10::nat) \<Longrightarrow> d = 0 \<or> d = 1 \<or> d = 2 \<or> d = 3 \<or> d = 4 \<or> d = 5 \<or> d = 6 \<or> d = 7 \<or> d = 8 \<or> d = 9"
  by presburger

lemma digit_char_inj:
  assumes d: "d < 10" and e: "e < 10" and eq: "digit_char d = digit_char e"
  shows "d = e"
  using digit_cases [OF d] digit_cases [OF e] eq
  by (elim disjE) (simp_all add: digit_char_def)

lemma number_to_string_nonempty: "number_to_string n \<noteq> []"
  by (subst number_to_string.simps) simp

lemma number_to_string_inj: "number_to_string n = number_to_string m \<Longrightarrow> n = m"
proof (induction n arbitrary: m rule: number_to_string.induct)
  case (1 n)
  show ?case
  proof (cases "n < 10")
    case True
    show ?thesis
    proof (cases "m < 10")
      case mt: True
      with True "1.prems" show ?thesis
        by (simp add: number_to_string.simps [of n] number_to_string.simps [of m] digit_char_inj)
    next
      case False
      with True "1.prems" number_to_string_nonempty [of "m div 10"] show ?thesis
        by (simp add: number_to_string.simps [of n] number_to_string.simps [of m])
    qed
  next
    case False
    show ?thesis
    proof (cases "m < 10")
      case True
      with False "1.prems" number_to_string_nonempty [of "n div 10"] show ?thesis
        by (simp add: number_to_string.simps [of n] number_to_string.simps [of m])
    next
      case mf: False
      with False "1.prems" have a: "number_to_string (n div 10) = number_to_string (m div 10)"
        and b: "digit_char (n mod 10) = digit_char (m mod 10)"
        by (simp_all add: number_to_string.simps [of n] number_to_string.simps [of m])
      from "1.IH" [OF False a] have "n div 10 = m div 10" .
      moreover from b have "n mod 10 = m mod 10" by (intro digit_char_inj) simp_all
      ultimately show ?thesis by (metis div_mult_mod_eq)
    qed
  qed
qed

section \<open>The compiling loop\<close>

lemma indexed_snoc: "indexed (ks @ [k]) = indexed ks @ [(Suc (length ks), k)]"
  by (simp add: indexed_def enumerate_append_eq)

lemma length_indexed [simp]: "length (indexed ks) = length ks"
  by (simp add: indexed_def)

lemma map_snd_indexed: "map snd (indexed ks) = ks"
  by (simp add: indexed_def)

lemma map_fst_indexed: "map fst (indexed ks) = [1..<Suc (length ks)]"
  by (simp add: indexed_def)

lemma set_fields_snoc:
  "set_fields vp item (ks @ [k]) =
     set_fields vp item ks @
       (if get_prop item k \<noteq> JStr [] \<and> vp then [(Suc (length ks), k)] else [])"
  by (simp add: set_fields_def indexed_snoc is_set_field_def)

lemma remove_fields_snoc:
  "remove_fields vp item (ks @ [k]) =
     remove_fields vp item ks @
       (if get_prop item k \<noteq> JStr [] \<and> vp then [] else [(Suc (length ks), k)])"
  by (simp add: remove_fields_def indexed_snoc is_set_field_def)

lemma clause_snoc:
  "clause kw (ts @ [t]) = (if ts = [] then kw @ '' '' @ t else clause kw ts @ '', '' @ t)"
  by (cases ts) simp_all

lemma is_present_set_if_present [simp]: "is_present (set_if_present m k v) = is_present m"
  by (cases m) simp_all

lemma is_present_register_names [simp]: "is_present (register_names m es) = is_present m"
  by (induction es arbitrary: m) (simp_all add: register_names_def)

lemma is_present_register_values [simp]: "is_present (register_values item m es) = is_present m"
  by (induction es arbitrary: m) (simp_all add: register_values_def)

lemma register_names_snoc:
  "register_names m (es @ [e]) =
     set_if_present (register_names m es) (name_placeholder (fst e)) (snd e)"
  by (simp add: register_names_def)

lemma register_values_snoc:
  "register_values item m (es @ [e]) =
     set_if_present (register_values item m es) (value_placeholder (fst e)) (get_prop item (snd e))"
  by (simp add: register_values_def)

text \<open>One more field takes \<open>compiled\<close> of the fields so far to \<open>compiled\<close> of all of them.\<close>

lemma compile_step_compiled:
  "compile_step item (compiled item ps ks) k = compiled item ps (ks @ [k])"
  by (simp add: compiled_def compile_step_def Let_def set_fields_snoc remove_fields_snoc
      indexed_snoc register_names_snoc register_values_snoc clause_snoc
      set_term_def name_placeholder_def value_placeholder_def)

lemma compile_fold:
  "foldl (compile_step item) (compile_init ps) ks = compiled item ps ks"
proof (induction ks rule: rev_induct)
  case Nil
  show ?case
    by (simp add: compiled_def compile_init_def set_fields_def remove_fields_def indexed_def
        register_names_def register_values_def)
next
  case (snoc k ks)
  then show ?case by (simp add: compile_step_compiled)
qed

lemma name_placeholder_inj: "name_placeholder i = name_placeholder j \<Longrightarrow> i = j"
  by (simp add: name_placeholder_def number_to_string_inj)

lemma value_placeholder_inj: "value_placeholder i = value_placeholder j \<Longrightarrow> i = j"
  by (simp add: value_placeholder_def number_to_string_inj)

text \<open>Into an empty map, the placeholders go one after the other, in the order of the fields.\<close>

lemma register_names_fresh:
  assumes "distinct (map fst es)"
  shows "register_names (Present []) es = Present (map (\<lambda>e. (name_placeholder (fst e), snd e)) es)"
  using assms
proof (induction es rule: rev_induct)
  case Nil
  show ?case by (simp add: register_names_def)
next
  case (snoc e es)
  then have ih: "register_names (Present []) es =
      Present (map (\<lambda>e. (name_placeholder (fst e), snd e)) es)" by simp
  from snoc.prems have "fst e \<notin> fst ` set es" by auto
  then have "name_placeholder (fst e) \<notin> fst ` set (map (\<lambda>e. (name_placeholder (fst e), snd e)) es)"
    by (force dest: name_placeholder_inj)
  then show ?case
    by (simp add: register_names_snoc ih set_prop_new)
qed

lemma register_values_fresh:
  assumes "distinct (map fst es)"
  shows "register_values item (Present []) es =
           Present (map (\<lambda>e. (value_placeholder (fst e), get_prop item (snd e))) es)"
  using assms
proof (induction es rule: rev_induct)
  case Nil
  show ?case by (simp add: register_values_def)
next
  case (snoc e es)
  then have ih: "register_values item (Present []) es =
      Present (map (\<lambda>e. (value_placeholder (fst e), get_prop item (snd e))) es)" by simp
  from snoc.prems have "fst e \<notin> fst ` set es" by auto
  then have "value_placeholder (fst e) \<notin>
      fst ` set (map (\<lambda>e. (value_placeholder (fst e), get_prop item (snd e))) es)"
    by (force dest: value_placeholder_inj)
  then show ?case
    by (simp add: register_values_snoc ih set_prop_new)
qed

lemma distinct_indexed: "distinct (map fst (indexed ks))"
  by (simp add: indexed_def)

lemma distinct_set_fields: "distinct (map fst (set_fields vp item ks))"
  unfolding set_fields_def by (rule distinct_map_filter) (rule distinct_indexed)

text \<open>What a call with a key sends, leaves in the caller's map and returns.\<close>

lemma updateWithAttributes_Present:
  assumes "Key originParams = Present key"
  shows "sent (updateWithAttributes ad now originParams item) =
           [compile_finish (compiled (surviving ad now key item) (base_params ad originParams)
              (Object_keys (surviving ad now key item)))]"
    and "caller_item (updateWithAttributes ad now originParams item) = surviving ad now key item"
    and "result (updateWithAttributes ad now originParams item) =
           (case client_update (doc ad)
                   (compile_finish (compiled (surviving ad now key item)
                      (base_params ad originParams) (Object_keys (surviving ad now key item)))) of
              Inr ack \<Rightarrow> Inr (update_respondData ad (surviving ad now key item) key)
            | Inl e \<Rightarrow> Inl (Mapped (handleError e)))"
  using assms
  by (simp_all add: updateWithAttributes_def Let_def compile_loop_def compile_fold
      surviving_def base_params_def split: sum.splits)

lemma override_Absent [simp]: "override Absent x = x"
  by (cases x) simp_all


lemma base_params_simps [simp]:
  "Key (base_params ad op) = Key op"
  "UpdateExpression (base_params ad op) = override (Present []) (UpdateExpression op)"
  "ExpressionAttributeNames (base_params ad op) = override (Present []) (ExpressionAttributeNames op)"
  "ExpressionAttributeValues (base_params ad op) = override (Present []) (ExpressionAttributeValues op)"
  by (simp_all add: base_params_def extendParams_def spread_def update_defaults_def no_params_def)

lemma is_present_override_default [simp]:
  "is_present (override (Present d) x) = (x \<noteq> Undefined)"
  by (cases x) simp_all

lemma register_values_Nil [simp]: "register_values item m [] = m"
  by (simp add: register_values_def)

lemma compile_finish_compiled:
  fixes item ps0 ks
  defines "vp \<equiv> is_present (ExpressionAttributeValues ps0)"
  defines "ps \<equiv> compile_finish (compiled item ps0 ks)"
  shows "UpdateExpression ps =
           Present (string_of_opt (UpdateExpression ps0)
             @ '' '' @ clause ''SET'' (map (\<lambda>e. set_term (fst e)) (set_fields vp item ks))
             @ '' '' @ clause ''REMOVE'' (map (\<lambda>e. name_placeholder (fst e)) (remove_fields vp item ks)))"
    and "ExpressionAttributeValues ps =
           (if set_fields vp item ks = [] then Absent
            else register_values item (ExpressionAttributeValues ps0) (set_fields vp item ks))"
    and "ExpressionAttributeNames ps = register_names (ExpressionAttributeNames ps0) (indexed ks)"
    and "Key ps = Key ps0"
  by (simp_all add: ps_def vp_def compile_finish_def compiled_def Let_def)


lemma register_names_lookup:
  assumes "distinct (map fst es)"
  shows "\<exists>m'. register_names (Present m0) es = Present m' \<and>
           (\<forall>e \<in> set es. map_of m' (name_placeholder (fst e)) = Some (snd e))"
  using assms
proof (induction es rule: rev_induct)
  case Nil
  show ?case by (simp add: register_names_def)
next
  case (snoc x es)
  then obtain m' where m': "register_names (Present m0) es = Present m'"
    and look: "\<forall>e \<in> set es. map_of m' (name_placeholder (fst e)) = Some (snd e)"
    by auto
  from snoc.prems have "fst x \<notin> fst ` set es" by simp
  then have fresh: "\<forall>e \<in> set es. fst e \<noteq> fst x" by (metis imageI)
  have "\<forall>e \<in> set es. name_placeholder (fst e) \<noteq> name_placeholder (fst x)"
    using fresh name_placeholder_inj by blast
  with look show ?case
    by (simp add: register_names_snoc m' map_of_set_prop)
qed

lemma set_fields_True:
  "set_fields True item ks = filter (\<lambda>e. get_prop item (snd e) \<noteq> JStr []) (indexed ks)"
  "remove_fields True item ks = filter (\<lambda>e. get_prop item (snd e) = JStr []) (indexed ks)"
  by (simp_all add: set_fields_def remove_fields_def is_set_field_def [abs_def])

text \<open>The equations that run the operations on the examples.\<close>

lemmas run_update =
  updateWithAttributes_def Let_def stamp_updated_def manages_def strip_keys_def strip_step_def
  delete_prop_def get_prop_def Object_keys_def extendParams_def spread_def update_defaults_def
  no_params_def compile_loop_def compile_init_def compile_step_def compile_finish_def
  string_of_opt_def number_to_string.simps digit_char_def update_respondData_def
  plain_adapter_def schema_adapter_def accepting_client_def rejecting_client_def
  update_request_def key_1_def

lemma remove_fields_all:
  assumes "\<forall>k \<in> set ks. get_prop item k = JStr []"
  shows "set_fields vp item ks = []" and "remove_fields vp item ks = indexed ks"
proof -
  have "\<forall>e \<in> set (indexed ks). \<not> is_set_field vp item e"
    using assms by (auto simp: is_set_field_def indexed_def in_set_enumerate_eq)
  then show "set_fields vp item ks = []" and "remove_fields vp item ks = indexed ks"
    by (simp_all add: set_fields_def remove_fields_def)
qed

lemmas run_placeholder =
  name_placeholder_def value_placeholder_def set_term_def number_to_string.simps digit_char_def

lemma names_fresh_zip:
  "map (\<lambda>e. (name_placeholder (fst e), snd e)) (indexed ks)
     = zip (map name_placeholder [1..<Suc (length ks)]) ks"
proof -
  have "indexed ks = zip [1..<Suc (length ks)] ks"
    by (simp add: indexed_def enumerate_eq_zip del: upt_Suc)
  then show ?thesis
    by (simp only: zip_map1) (simp add: case_prod_beta)
qed

lemma names_of_entries: "names_of ps = entries (ExpressionAttributeNames ps)"
  by (simp add: names_of_def entries_def)

lemma entries_override_default: "set (entries (override (Present []) x)) \<subseteq> set (entries x)"
  by (cases x) (simp_all add: entries_def)

lemma entries_set_if_present:
  "set (entries (set_if_present m k v)) \<subseteq> insert (k, v) (set (entries m))"
  using set_set_prop [of _ k v] by (cases m) (simp_all add: entries_def)

lemma entries_register_names:
  "(p, f) \<in> set (entries (register_names m es)) \<Longrightarrow>
     (p, f) \<in> set (entries m) \<or> f \<in> snd ` set es"
proof (induction es rule: rev_induct)
  case Nil
  then show ?case by (simp add: register_names_def)
next
  case (snoc e es)
  from snoc.prems entries_set_if_present [of "register_names m es" "name_placeholder (fst e)" "snd e"]
  have "(p, f) = (name_placeholder (fst e), snd e) \<or> (p, f) \<in> set (entries (register_names m es))"
    by (auto simp: register_names_snoc)
  with snoc.IH show ?case by auto
qed

lemma surviving_keys:
  "set (Object_keys (surviving ad now key item)) =
     {k \<in> set (Object_keys (stamp_updated ad now item)).
        \<not> (k \<in> set (Object_keys key) \<and> truthy (get_prop (stamp_updated ad now item) k))}"
  by (simp add: surviving_def keys_strip_keys)

lemma surviving_get_prop:
  "get_prop (surviving ad now key item) k =
     (if k \<in> set (Object_keys key) \<and> truthy (get_prop (stamp_updated ad now item) k)
      then JUndefined else get_prop (stamp_updated ad now item) k)"
  by (simp add: surviving_def get_prop_strip_keys)

lemma keys_set_prop: "set (Object_keys (set_prop ob k v)) = insert k (set (Object_keys ob))"
  by (induction ob) (auto simp: Object_keys_def)

text \<open>What a create with an attribute map leaves in the map, sends and returns.\<close>

lemma create_Present:
  assumes "Item item = Present it"
  shows "caller_item (create ad uuid t_created t_updated item itemId) =
           create_stamp ad (create_id itemId uuid) t_created t_updated it"
    and "sent (create ad uuid t_created t_updated item itemId) =
           [extendParams (item\<lparr> Item := Present
              (create_stamp ad (create_id itemId uuid) t_created t_updated it) \<rparr>) (tableName ad)]"
    and "result (create ad uuid t_created t_updated item itemId) =
           (case client_put (doc ad) (extendParams (item\<lparr> Item := Present
                    (create_stamp ad (create_id itemId uuid) t_created t_updated it) \<rparr>)
                    (tableName ad)) of
              Inr ack \<Rightarrow> Inr (create_respondData ad
                    (create_stamp ad (create_id itemId uuid) t_created t_updated it))
            | Inl e \<Rightarrow> Inl (Raw e))"
  using assms by (simp_all add: create_def Let_def split: sum.splits)

lemma create_stamp_created:
  "get_prop (create_stamp ad ident t_created t_updated it) ''created'' =
     (if manages ad ''created'' then JStr t_created else get_prop it ''created'')"
  by (simp add: create_stamp_def Let_def get_prop_set_prop)

lemma create_stamp_id:
  "get_prop (create_stamp ad ident t_created t_updated it) ''id'' =
     (if manages ad ''id'' then JStr ident else get_prop it ''id'')"
  by (simp add: create_stamp_def Let_def get_prop_set_prop)

lemma create_stamp_updated:
  "get_prop (create_stamp ad ident t_created t_updated it) ''updated'' =
     (if manages ad ''updated''
      then (if truthy (get_prop (create_stamp ad ident t_created t_updated it) ''created'')
            then get_prop (create_stamp ad ident t_created t_updated it) ''created''
            else JStr t_updated)
      else get_prop it ''updated'')"
  by (simp add: create_stamp_def Let_def get_prop_set_prop)

lemma create_stamp_other:
  "f \<noteq> ''id'' \<Longrightarrow> f \<noteq> ''created'' \<Longrightarrow> f \<noteq> ''updated'' \<Longrightarrow>
     get_prop (create_stamp ad ident t_created t_updated it) f = get_prop it f"
  by (simp add: create_stamp_def Let_def get_prop_set_prop)

lemma create_respondData_updated:
  "manages ad ''updated'' \<Longrightarrow>
     get_prop (create_respondData ad it) ''updated'' = get_prop it ''updated''"
  by (simp add: create_respondData_def Let_def get_prop_set_prop)

lemma create_respondData_created:
  "manages ad ''created'' \<Longrightarrow>
     get_prop (create_respondData ad it) ''created'' = get_prop it ''created''"
  by (simp add: create_respondData_def Let_def get_prop_set_prop)

lemma stamp_updated_get_prop:
  "get_prop (stamp_updated ad now item) f =
     (if f = ''updated'' \<and> manages ad ''updated'' then JStr now else get_prop item f)"
  by (simp add: stamp_updated_def get_prop_set_prop)

lemma stamp_updated_keys:
  "set (Object_keys (stamp_updated ad now item)) =
     (if manages ad ''updated'' then insert ''updated'' (set (Object_keys item))
      else set (Object_keys item))"
  by (simp add: stamp_updated_def keys_set_prop)




lemma surviving_filter:
  "surviving ad now key item =
     filter (\<lambda>p. \<not> (fst p \<in> set (Object_keys key) \<and>
                      truthy (get_prop (stamp_updated ad now item) (fst p))))
       (stamp_updated ad now item)"
  by (simp add: surviving_def strip_keys_filter)

lemma values_fresh_sent:
  assumes "ExpressionAttributeValues ps0 = Present []"
  shows "values_of (compile_finish (compiled item ps0 ks)) =
           map (\<lambda>e. (value_placeholder (fst e), get_prop item (snd e))) (set_fields True item ks)"
proof -
  have "ExpressionAttributeValues (compile_finish (compiled item ps0 ks)) =
      (if set_fields True item ks = [] then Absent
       else Present (map (\<lambda>e. (value_placeholder (fst e), get_prop item (snd e)))
                      (set_fields True item ks)))"
    using compile_finish_compiled(2) [of item ps0 ks] assms
      register_values_fresh [OF distinct_set_fields, of item True item ks]
    by simp
  then show ?thesis
    by (cases "set_fields True item ks = []") (simp_all add: values_of_def)
qed

lemma update_stamp_keeps_updated:
  "update_stamp now it = Inr it' \<Longrightarrow> get_prop it' ''updated'' = get_prop it ''updated''"
  by (auto simp: update_stamp_def get_prop_set_prop split: jsval.splits)

section \<open>Set or remove\<close>




text \<open>
  C4. When every field that survives the exclusion of the key is the empty string, the
  request is sent without \<^verbatim>\<open>ExpressionAttributeValues\<close> (the property is deleted, not
  left as an empty map), and what the compiler appends to the update expression is the
  empty SET clause and the REMOVE clause of all the fields.
\<close>

theorem update_only_remove:
  assumes key: "Key originParams = Present key"
    and sentinel: "\<forall>k \<in> set (Object_keys (surviving ad now key item)).
                     get_prop (surviving ad now key item) k = JStr []"
  shows "\<exists>ps. sent (updateWithAttributes ad now originParams item) = [ps] \<and>
           ExpressionAttributeValues ps = Absent \<and>
           UpdateExpression ps =
             Present (string_of_opt (override (Present []) (UpdateExpression originParams))
               @ '' '' @ '' '' @ clause ''REMOVE''
                 (map name_placeholder [1..<Suc (length (Object_keys (surviving ad now key item)))]))"
proof -
  let ?item = "surviving ad now key item"
  let ?ks = "Object_keys ?item"
  let ?ps = "compile_finish (compiled ?item (base_params ad originParams) ?ks)"
  let ?vp = "is_present (ExpressionAttributeValues (base_params ad originParams))"
  have sent: "sent (updateWithAttributes ad now originParams item) = [?ps]"
    by (rule updateWithAttributes_Present(1) [OF key])
  note all = remove_fields_all [OF sentinel, of ?vp]
  have "map (\<lambda>e. name_placeholder (fst e)) (indexed ?ks)
      = map name_placeholder (map fst (indexed ?ks))"
    by (simp add: comp_def)
  then have names: "map (\<lambda>e. name_placeholder (fst e)) (indexed ?ks)
      = map name_placeholder [1..<Suc (length ?ks)]"
    by (simp only: map_fst_indexed)
  have "ExpressionAttributeValues ?ps = Absent"
    using compile_finish_compiled(2) [of ?item "base_params ad originParams" ?ks] all by simp
  moreover have "UpdateExpression ?ps =
      Present (string_of_opt (override (Present []) (UpdateExpression originParams))
        @ '' '' @ '' '' @ clause ''REMOVE'' (map (\<lambda>e. name_placeholder (fst e)) (indexed ?ks)))"
    using compile_finish_compiled(1) [of ?item "base_params ad originParams" ?ks] all
    by simp
  ultimately show ?thesis unfolding sent names by blast
qed

theorem update_only_remove_witness:
  "map UpdateExpression (sent (updateWithAttributes (plain_adapter accepting_client)
      ''2019-05-01T10:00:00.000Z'' (update_request key_1)
      [(''id'', JStr ''1''), (''note'', JStr []), (''nick'', JStr [])])) =
     [Present ''  REMOVE #param1, #param2''] \<and>
   map ExpressionAttributeValues (sent (updateWithAttributes (plain_adapter accepting_client)
      ''2019-05-01T10:00:00.000Z'' (update_request key_1)
      [(''id'', JStr ''1''), (''note'', JStr []), (''nick'', JStr [])])) = [Absent]"
proof -
  let ?ad = "plain_adapter accepting_client"
  let ?now = "''2019-05-01T10:00:00.000Z''"
  let ?item = "[(''id'', JStr ''1''), (''note'', JStr []), (''nick'', JStr [])]"
  have sv: "surviving ?ad ?now key_1 ?item = [(''note'', JStr []), (''nick'', JStr [])]"
    by (simp add: surviving_def run_update)
  have a: "Key (update_request key_1) = Present key_1"
    by (simp add: update_request_def no_params_def)
  have b: "\<forall>k \<in> set (Object_keys (surviving ?ad ?now key_1 ?item)).
      get_prop (surviving ?ad ?now key_1 ?item) k = JStr []"
    unfolding sv by (simp add: Object_keys_def get_prop_def)
  have c: "string_of_opt (override (Present []) (UpdateExpression (update_request key_1))) = []"
    by (simp add: update_request_def no_params_def string_of_opt_def)
  have d: "clause ''REMOVE'' (map name_placeholder
        [1..<Suc (length (Object_keys [(''note'', JStr []), (''nick'', JStr [])]))])
      = ''REMOVE #param1, #param2''"
    by (simp add: Object_keys_def run_placeholder)
  from update_only_remove [OF a b, unfolded sv c d]
  show ?thesis by auto
qed

section \<open>The wire shape of the update\<close>

text \<open>
  C2. Updating the attributes \<^verbatim>\<open>{name: "Bob", note: ""}\<close> under the key
  \<^verbatim>\<open>{id: "1"}\<close>, with a schema that manages nothing, sends the update expression
  \<^verbatim>\<open>" SET #param1 = :val1 REMOVE #param2"\<close>, the names
  \<^verbatim>\<open>{#param1: name, #param2: note}\<close> and the values \<^verbatim>\<open>{:val1: "Bob"}\<close>, and returns
  \<^verbatim>\<open>{id: "1"}\<close> once the store has accepted the request. In general the fields are
  numbered from 1 in the order \<^verbatim>\<open>Object.keys\<close> lists them, every field has its name
  registered under its number, and both clauses use that one numbering: each lists its
  fields with the numbers they have among all the fields.
\<close>

theorem update_scenario_and_indices:
  "sent (updateWithAttributes (plain_adapter c) now (update_request key_1)
          [(''name'', JStr ''Bob''), (''note'', JStr [])]) =
     [\<lparr> TableName = Present ''shifts'', Key = Present [(''id'', JStr ''1'')], Item = Absent,
        ProjectionExpression = Absent, ConditionExpression = Absent,
        UpdateExpression = Present '' SET #param1 = :val1 REMOVE #param2'',
        ExpressionAttributeNames = Present [(''#param1'', ''name''), (''#param2'', ''note'')],
        ExpressionAttributeValues = Present [('':val1'', JStr ''Bob'')],
        ReturnConsumedCapacity = Present ''INDEXES'' \<rparr>] \<and>
   result (updateWithAttributes (plain_adapter accepting_client) now (update_request key_1)
          [(''name'', JStr ''Bob''), (''note'', JStr [])]) = Inr [(''id'', JStr ''1'')] \<and>
   (Key originParams = Present key \<longrightarrow>
      (\<exists>ps. sent (updateWithAttributes ad now' originParams item) = [ps] \<and>
         (let item' = surviving ad now' key item;
              ks = Object_keys item';
              vp = (ExpressionAttributeValues originParams \<noteq> Undefined)
          in map fst (indexed ks) = [1..<Suc (length ks)] \<and>
             map snd (indexed ks) = ks \<and>
             ExpressionAttributeNames ps =
               register_names (override (Present []) (ExpressionAttributeNames originParams))
                 (indexed ks) \<and>
             (ExpressionAttributeNames originParams = Absent \<longrightarrow>
                ExpressionAttributeNames ps =
                  Present (zip (map name_placeholder [1..<Suc (length ks)]) ks)) \<and>
             UpdateExpression ps =
               Present (string_of_opt (override (Present []) (UpdateExpression originParams))
                 @ '' '' @ clause ''SET''
                     (map (\<lambda>e. set_term (fst e)) (set_fields vp item' ks))
                 @ '' '' @ clause ''REMOVE''
                     (map (\<lambda>e. name_placeholder (fst e)) (remove_fields vp item' ks))))))"
proof (intro conjI impI)
  show "sent (updateWithAttributes (plain_adapter c) now (update_request key_1)
          [(''name'', JStr ''Bob''), (''note'', JStr [])]) =
     [\<lparr> TableName = Present ''shifts'', Key = Present [(''id'', JStr ''1'')], Item = Absent,
        ProjectionExpression = Absent, ConditionExpression = Absent,
        UpdateExpression = Present '' SET #param1 = :val1 REMOVE #param2'',
        ExpressionAttributeNames = Present [(''#param1'', ''name''), (''#param2'', ''note'')],
        ExpressionAttributeValues = Present [('':val1'', JStr ''Bob'')],
        ReturnConsumedCapacity = Present ''INDEXES'' \<rparr>]"
    by (simp add: run_update split: sum.splits)
  show "result (updateWithAttributes (plain_adapter accepting_client) now (update_request key_1)
          [(''name'', JStr ''Bob''), (''note'', JStr [])]) = Inr [(''id'', JStr ''1'')]"
    by (simp add: run_update)
next
  assume key: "Key originParams = Present key"
  let ?item = "surviving ad now' key item"
  let ?ks = "Object_keys ?item"
  let ?ps = "compile_finish (compiled ?item (base_params ad originParams) ?ks)"
  have sent: "sent (updateWithAttributes ad now' originParams item) = [?ps]"
    by (rule updateWithAttributes_Present(1) [OF key])
  have names: "ExpressionAttributeNames ?ps =
      register_names (override (Present []) (ExpressionAttributeNames originParams)) (indexed ?ks)"
    using compile_finish_compiled(3) [of ?item "base_params ad originParams" ?ks] by simp
  have fresh: "ExpressionAttributeNames ?ps =
      Present (zip (map name_placeholder [1..<Suc (length ?ks)]) ?ks)"
    if "ExpressionAttributeNames originParams = Absent"
    unfolding names that
    by (simp only: override.simps register_names_fresh [OF distinct_indexed] names_fresh_zip)
  have ue: "UpdateExpression ?ps =
      Present (string_of_opt (override (Present []) (UpdateExpression originParams))
        @ '' '' @ clause ''SET''
            (map (\<lambda>e. set_term (fst e))
               (set_fields (ExpressionAttributeValues originParams \<noteq> Undefined) ?item ?ks))
        @ '' '' @ clause ''REMOVE''
            (map (\<lambda>e. name_placeholder (fst e))
               (remove_fields (ExpressionAttributeValues originParams \<noteq> Undefined) ?item ?ks)))"
    using compile_finish_compiled(1) [of ?item "base_params ad originParams" ?ks] by simp
  show "\<exists>ps. sent (updateWithAttributes ad now' originParams item) = [ps] \<and>
         (let item' = surviving ad now' key item;
              ks = Object_keys item';
              vp = (ExpressionAttributeValues originParams \<noteq> Undefined)
          in map fst (indexed ks) = [1..<Suc (length ks)] \<and>
             map snd (indexed ks) = ks \<and>
             ExpressionAttributeNames ps =
               register_names (override (Present []) (ExpressionAttributeNames originParams))
                 (indexed ks) \<and>
             (ExpressionAttributeNames originParams = Absent \<longrightarrow>
                ExpressionAttributeNames ps =
                  Present (zip (map name_placeholder [1..<Suc (length ks)]) ks)) \<and>
             UpdateExpression ps =
               Present (string_of_opt (override (Present []) (UpdateExpression originParams))
                 @ '' '' @ clause ''SET''
                     (map (\<lambda>e. set_term (fst e)) (set_fields vp item' ks))
                 @ '' '' @ clause ''REMOVE''
                     (map (\<lambda>e. name_placeholder (fst e)) (remove_fields vp item' ks))))"
    unfolding sent Let_def
    using names fresh ue map_fst_indexed [of ?ks] map_snd_indexed [of ?ks] by blast
qed

theorem update_scenario_and_indices_witness:
  "map UpdateExpression (sent (updateWithAttributes (plain_adapter accepting_client)
      ''2019-05-01T10:00:00.000Z'' (update_request key_1)
      [(''note'', JStr []), (''name'', JStr ''Bob''), (''nick'', JStr []), (''age'', JNum 30)])) =
     [Present '' SET #param2 = :val2, #param4 = :val4 REMOVE #param1, #param3''] \<and>
   map ExpressionAttributeNames (sent (updateWithAttributes (plain_adapter accepting_client)
      ''2019-05-01T10:00:00.000Z'' (update_request key_1)
      [(''note'', JStr []), (''name'', JStr ''Bob''), (''nick'', JStr []), (''age'', JNum 30)])) =
     [Present [(''#param1'', ''note''), (''#param2'', ''name''), (''#param3'', ''nick''),
               (''#param4'', ''age'')]]"
proof -
  let ?ad = "plain_adapter accepting_client"
  let ?now = "''2019-05-01T10:00:00.000Z''"
  let ?item = "[(''note'', JStr []), (''name'', JStr ''Bob''), (''nick'', JStr []),
                (''age'', JNum 30)]"
  have sv: "surviving ?ad ?now key_1 ?item = ?item"
    by (simp add: surviving_def run_update)
  have a: "Key (update_request key_1) = Present key_1"
    by (simp add: update_request_def no_params_def)
  from update_scenario_and_indices [where originParams = "update_request key_1"
      and key = key_1 and ad = ?ad and now' = ?now and item = ?item,
      THEN conjunct2, THEN conjunct2, rule_format, OF a]
  obtain ps where s: "sent (updateWithAttributes ?ad ?now (update_request key_1) ?item) = [ps]"
    and names: "ExpressionAttributeNames (update_request key_1) = Absent \<longrightarrow>
        ExpressionAttributeNames ps =
          Present (zip (map name_placeholder [1..<Suc (length (Object_keys ?item))])
                     (Object_keys ?item))"
    and ue: "UpdateExpression ps =
        Present (string_of_opt (override (Present []) (UpdateExpression (update_request key_1)))
          @ '' '' @ clause ''SET'' (map (\<lambda>e. set_term (fst e))
              (set_fields (ExpressionAttributeValues (update_request key_1) \<noteq> Undefined)
                 ?item (Object_keys ?item)))
          @ '' '' @ clause ''REMOVE'' (map (\<lambda>e. name_placeholder (fst e))
              (remove_fields (ExpressionAttributeValues (update_request key_1) \<noteq> Undefined)
                 ?item (Object_keys ?item))))"
    unfolding Let_def sv by blast
  have n: "ExpressionAttributeNames ps =
      Present [(''#param1'', ''note''), (''#param2'', ''name''), (''#param3'', ''nick''),
               (''#param4'', ''age'')]"
    using names
    by (simp add: update_request_def no_params_def Object_keys_def run_placeholder)
  have u: "UpdateExpression ps =
      Present '' SET #param2 = :val2, #param4 = :val4 REMOVE #param1, #param3''"
    unfolding ue
    by (simp add: update_request_def no_params_def Object_keys_def run_placeholder
        string_of_opt_def set_fields_def remove_fields_def is_set_field_def indexed_def
        get_prop_def)
  show ?thesis by (simp add: s n u)
qed

section \<open>Excluding the key\<close>

text \<open>
  C1, as the code has it. The attribute map that is compiled is the map as it is after the
  stamp of \<^verbatim>\<open>updated\<close>, without the fields that are named like a field of the key and
  have a truthy value there; the caller's map is left as that map. So a truthy field of
  the key has no placeholder in the update expression, the name map or the value map, all
  three being made of the fields of that map alone, and a field named like a key field
  whose value is falsy is kept, with its value, and compiled like any other field.
\<close>

theorem update_excludes_truthy_key_fields:
  assumes key: "Key originParams = Present key"
  shows "\<exists>ps. sent (updateWithAttributes ad now originParams item) = [ps] \<and>
     (let A' = stamp_updated ad now item;
          item' = filter (\<lambda>p. \<not> (fst p \<in> set (Object_keys key) \<and>
                                   truthy (get_prop A' (fst p)))) A';
          ks = Object_keys item';
          vp = (ExpressionAttributeValues originParams \<noteq> Undefined)
      in caller_item (updateWithAttributes ad now originParams item) = item' \<and>
         (\<forall>k \<in> set (Object_keys key). truthy (get_prop A' k) \<longrightarrow> k \<notin> set ks) \<and>
         (\<forall>k \<in> set (Object_keys key).
            k \<in> set (Object_keys A') \<and> \<not> truthy (get_prop A' k) \<longrightarrow>
              k \<in> set ks \<and> get_prop item' k = get_prop A' k) \<and>
         ExpressionAttributeNames ps =
           register_names (override (Present []) (ExpressionAttributeNames originParams))
             (indexed ks) \<and>
         (ExpressionAttributeNames originParams = Absent \<longrightarrow>
            ExpressionAttributeNames ps =
              Present (zip (map name_placeholder [1..<Suc (length ks)]) ks)) \<and>
         ExpressionAttributeValues ps =
           (if set_fields vp item' ks = [] then Absent
            else register_values item'
                   (override (Present []) (ExpressionAttributeValues originParams))
                   (set_fields vp item' ks)) \<and>
         (ExpressionAttributeValues originParams = Absent \<longrightarrow>
            values_of ps =
              map (\<lambda>e. (value_placeholder (fst e), get_prop item' (snd e)))
                (set_fields True item' ks)) \<and>
         UpdateExpression ps =
           Present (string_of_opt (override (Present []) (UpdateExpression originParams))
             @ '' '' @ clause ''SET''
                 (map (\<lambda>e. set_term (fst e)) (set_fields vp item' ks))
             @ '' '' @ clause ''REMOVE''
                 (map (\<lambda>e. name_placeholder (fst e)) (remove_fields vp item' ks))))"
proof -
  let ?A = "stamp_updated ad now item"
  let ?item = "surviving ad now key item"
  let ?ks = "Object_keys ?item"
  let ?ps = "compile_finish (compiled ?item (base_params ad originParams) ?ks)"
  let ?vp = "ExpressionAttributeValues originParams \<noteq> Undefined"
  have sent: "sent (updateWithAttributes ad now originParams item) = [?ps]"
    by (rule updateWithAttributes_Present(1) [OF key])
  have ci: "caller_item (updateWithAttributes ad now originParams item) = ?item"
    by (rule updateWithAttributes_Present(2) [OF key])
  have gone: "\<forall>k \<in> set (Object_keys key). truthy (get_prop ?A k) \<longrightarrow> k \<notin> set ?ks"
    by (simp add: surviving_keys)
  have kept: "\<forall>k \<in> set (Object_keys key).
      k \<in> set (Object_keys ?A) \<and> \<not> truthy (get_prop ?A k) \<longrightarrow>
        k \<in> set ?ks \<and> get_prop ?item k = get_prop ?A k"
    by (simp add: surviving_keys surviving_get_prop)
  have names: "ExpressionAttributeNames ?ps =
      register_names (override (Present []) (ExpressionAttributeNames originParams)) (indexed ?ks)"
    using compile_finish_compiled(3) [of ?item "base_params ad originParams" ?ks] by simp
  have fresh: "ExpressionAttributeNames ?ps =
      Present (zip (map name_placeholder [1..<Suc (length ?ks)]) ?ks)"
    if "ExpressionAttributeNames originParams = Absent"
    unfolding names that
    by (simp only: override.simps register_names_fresh [OF distinct_indexed] names_fresh_zip)
  have vals: "ExpressionAttributeValues ?ps =
      (if set_fields ?vp ?item ?ks = [] then Absent
       else register_values ?item
              (override (Present []) (ExpressionAttributeValues originParams))
              (set_fields ?vp ?item ?ks))"
    using compile_finish_compiled(2) [of ?item "base_params ad originParams" ?ks] by simp
  have vfresh: "values_of ?ps =
      map (\<lambda>e. (value_placeholder (fst e), get_prop ?item (snd e))) (set_fields True ?item ?ks)"
    if "ExpressionAttributeValues originParams = Absent"
    using values_fresh_sent [where ?ps0.0 = "base_params ad originParams" and item = ?item
        and ks = ?ks] that by simp
  have ue: "UpdateExpression ?ps =
      Present (string_of_opt (override (Present []) (UpdateExpression originParams))
        @ '' '' @ clause ''SET''
            (map (\<lambda>e. set_term (fst e)) (set_fields ?vp ?item ?ks))
        @ '' '' @ clause ''REMOVE''
            (map (\<lambda>e. name_placeholder (fst e)) (remove_fields ?vp ?item ?ks)))"
    using compile_finish_compiled(1) [of ?item "base_params ad originParams" ?ks] by simp
  have "\<exists>ps. sent (updateWithAttributes ad now originParams item) = [ps] \<and>
      caller_item (updateWithAttributes ad now originParams item) = ?item \<and>
      (\<forall>k \<in> set (Object_keys key). truthy (get_prop ?A k) \<longrightarrow> k \<notin> set ?ks) \<and>
      (\<forall>k \<in> set (Object_keys key).
         k \<in> set (Object_keys ?A) \<and> \<not> truthy (get_prop ?A k) \<longrightarrow>
           k \<in> set ?ks \<and> get_prop ?item k = get_prop ?A k) \<and>
      ExpressionAttributeNames ps =
        register_names (override (Present []) (ExpressionAttributeNames originParams))
          (indexed ?ks) \<and>
      (ExpressionAttributeNames originParams = Absent \<longrightarrow>
         ExpressionAttributeNames ps =
           Present (zip (map name_placeholder [1..<Suc (length ?ks)]) ?ks)) \<and>
      ExpressionAttributeValues ps =
        (if set_fields ?vp ?item ?ks = [] then Absent
         else register_values ?item
                (override (Present []) (ExpressionAttributeValues originParams))
                (set_fields ?vp ?item ?ks)) \<and>
      (ExpressionAttributeValues originParams = Absent \<longrightarrow>
         values_of ps =
           map (\<lambda>e. (value_placeholder (fst e), get_prop ?item (snd e)))
             (set_fields True ?item ?ks)) \<and>
      UpdateExpression ps =
        Present (string_of_opt (override (Present []) (UpdateExpression originParams))
          @ '' '' @ clause ''SET''
              (map (\<lambda>e. set_term (fst e)) (set_fields ?vp ?item ?ks))
          @ '' '' @ clause ''REMOVE''
              (map (\<lambda>e. name_placeholder (fst e)) (remove_fields ?vp ?item ?ks)))"
    unfolding sent using ci gone kept names fresh vals vfresh ue by blast
  then show ?thesis
    unfolding Let_def surviving_filter .
qed

theorem update_excludes_truthy_key_fields_witness:
  "caller_item (updateWithAttributes (plain_adapter accepting_client)
      ''2019-05-01T10:00:00.000Z''
      (update_request [(''id'', JStr ''1''), (''seq'', JNum 7)])
      [(''id'', JStr ''1''), (''seq'', JNum 0), (''name'', JStr ''Bob'')]) =
     [(''seq'', JNum 0), (''name'', JStr ''Bob'')] \<and>
   map ExpressionAttributeNames (sent (updateWithAttributes (plain_adapter accepting_client)
      ''2019-05-01T10:00:00.000Z''
      (update_request [(''id'', JStr ''1''), (''seq'', JNum 7)])
      [(''id'', JStr ''1''), (''seq'', JNum 0), (''name'', JStr ''Bob'')])) =
     [Present [(''#param1'', ''seq''), (''#param2'', ''name'')]]"
proof -
  let ?ad = "plain_adapter accepting_client"
  let ?now = "''2019-05-01T10:00:00.000Z''"
  let ?key = "[(''id'', JStr ''1''), (''seq'', JNum 7)]"
  let ?A = "[(''id'', JStr ''1''), (''seq'', JNum 0), (''name'', JStr ''Bob'')]"
  have a: "Key (update_request ?key) = Present ?key"
    by (simp add: update_request_def no_params_def)
  have n: "ExpressionAttributeNames (update_request ?key) = Absent"
    by (simp add: update_request_def no_params_def)
  have flt: "filter (\<lambda>p. \<not> (fst p \<in> set (Object_keys ?key) \<and>
                      truthy (get_prop (stamp_updated ?ad ?now ?A) (fst p))))
       (stamp_updated ?ad ?now ?A) = [(''seq'', JNum 0), (''name'', JStr ''Bob'')]"
    by (simp add: stamp_updated_def manages_def plain_adapter_def Object_keys_def get_prop_def)
  have z: "zip (map name_placeholder
        [1..<Suc (length (Object_keys [(''seq'', JNum 0), (''name'', JStr ''Bob'')]))])
      (Object_keys [(''seq'', JNum 0), (''name'', JStr ''Bob'')]) =
      [(''#param1'', ''seq''), (''#param2'', ''name'')]"
    by (simp add: Object_keys_def run_placeholder)
  from update_excludes_truthy_key_fields [OF a, of ?ad ?now ?A, unfolded Let_def flt]
  obtain ps where s: "sent (updateWithAttributes ?ad ?now (update_request ?key) ?A) = [ps]"
    and ci: "caller_item (updateWithAttributes ?ad ?now (update_request ?key) ?A) =
        [(''seq'', JNum 0), (''name'', JStr ''Bob'')]"
    and nm: "ExpressionAttributeNames (update_request ?key) = Absent \<longrightarrow>
        ExpressionAttributeNames ps = Present (zip (map name_placeholder
          [1..<Suc (length (Object_keys [(''seq'', JNum 0), (''name'', JStr ''Bob'')]))])
          (Object_keys [(''seq'', JNum 0), (''name'', JStr ''Bob'')]))"
    by blast
  from nm n have "ExpressionAttributeNames ps =
      Present [(''#param1'', ''seq''), (''#param2'', ''name'')]"
    unfolding z by blast
  with s ci show ?thesis by simp
qed

text \<open>
  The claim as stated fails for a falsy value: with the key \<^verbatim>\<open>{id: "1"}\<close>, the field
  \<^verbatim>\<open>id: 0\<close> stays in the map and is compiled under \<^verbatim>\<open>#param1\<close>.
\<close>

theorem update_keeps_falsy_key_field:
  "sent (updateWithAttributes (plain_adapter accepting_client) ''2019-05-01T10:00:00.000Z''
          (update_request key_1) [(''id'', JNum 0), (''name'', JStr ''Bob'')]) =
     [\<lparr> TableName = Present ''shifts'', Key = Present [(''id'', JStr ''1'')], Item = Absent,
        ProjectionExpression = Absent, ConditionExpression = Absent,
        UpdateExpression = Present '' SET #param1 = :val1, #param2 = :val2 '',
        ExpressionAttributeNames = Present [(''#param1'', ''id''), (''#param2'', ''name'')],
        ExpressionAttributeValues = Present [('':val1'', JNum 0), ('':val2'', JStr ''Bob'')],
        ReturnConsumedCapacity = Present ''INDEXES'' \<rparr>] \<and>
   caller_item (updateWithAttributes (plain_adapter accepting_client) ''2019-05-01T10:00:00.000Z''
          (update_request key_1) [(''id'', JNum 0), (''name'', JStr ''Bob'')]) =
     [(''id'', JNum 0), (''name'', JStr ''Bob'')]"
  by (simp add: run_update)

section \<open>An empty attribute map\<close>

text \<open>
  C5, as the code has it. When nothing is left of the attribute map after the exclusion of
  the key, the call is not rejected before the store is asked: one request is sent, with
  two spaces appended to the update expression and without
  \<^verbatim>\<open>ExpressionAttributeValues\<close>, and the call succeeds or fails as the store answers,
  a failure being mapped by \<^verbatim>\<open>handleError\<close>.
\<close>

theorem update_empty_not_rejected:
  assumes key: "Key originParams = Present key"
    and empty: "surviving ad now key item = []"
  shows "\<exists>ps. sent (updateWithAttributes ad now originParams item) = [ps] \<and>
           UpdateExpression ps =
             Present (string_of_opt (override (Present []) (UpdateExpression originParams))
                        @ ''  '') \<and>
           ExpressionAttributeValues ps = Absent \<and>
           result (updateWithAttributes ad now originParams item) =
             (case client_update (doc ad) ps of
                Inr ack \<Rightarrow> Inr (update_respondData ad [] key)
              | Inl e \<Rightarrow> Inl (Mapped (handleError e)))"
proof -
  let ?ps = "compile_finish (compiled [] (base_params ad originParams) [])"
  have sent: "sent (updateWithAttributes ad now originParams item) = [?ps]"
    using updateWithAttributes_Present(1) [OF key, of ad now item]
    by (simp add: empty Object_keys_def)
  have res: "result (updateWithAttributes ad now originParams item) =
      (case client_update (doc ad) ?ps of
         Inr ack \<Rightarrow> Inr (update_respondData ad [] key)
       | Inl e \<Rightarrow> Inl (Mapped (handleError e)))"
    using updateWithAttributes_Present(3) [OF key, of ad now item, unfolded empty]
    by (simp add: Object_keys_def)
  have "UpdateExpression ?ps =
      Present (string_of_opt (override (Present []) (UpdateExpression originParams)) @ ''  '')"
    using compile_finish_compiled(1) [of "[]" "base_params ad originParams" "[]"]
    by (simp add: set_fields_def remove_fields_def indexed_def)
  moreover have "ExpressionAttributeValues ?ps = Absent"
    using compile_finish_compiled(2) [of "[]" "base_params ad originParams" "[]"]
    by (simp add: set_fields_def indexed_def)
  ultimately show ?thesis using sent res by blast
qed

theorem update_empty_not_rejected_witness:
  "map UpdateExpression (sent (updateWithAttributes (plain_adapter accepting_client)
      ''2019-05-01T10:00:00.000Z'' (update_request key_1) [])) = [Present ''  ''] \<and>
   result (updateWithAttributes (plain_adapter accepting_client)
      ''2019-05-01T10:00:00.000Z'' (update_request key_1) []) = Inr [(''id'', JStr ''1'')]"
proof -
  let ?ad = "plain_adapter accepting_client"
  let ?now = "''2019-05-01T10:00:00.000Z''"
  have a: "Key (update_request key_1) = Present key_1"
    by (simp add: update_request_def no_params_def)
  have b: "surviving ?ad ?now key_1 [] = []"
    by (simp add: surviving_def run_update)
  have c: "string_of_opt (override (Present []) (UpdateExpression (update_request key_1))) = []"
    by (simp add: update_request_def no_params_def string_of_opt_def)
  have d: "client_update (doc ?ad) ps = Inr ()" for ps
    by (simp add: plain_adapter_def accepting_client_def)
  have e: "update_respondData ?ad [] key_1 = [(''id'', JStr ''1'')]"
    by (simp add: update_respondData_def manages_def plain_adapter_def key_1_def get_prop_def)
  from update_empty_not_rejected [OF a b, unfolded c d e]
  show ?thesis by auto
qed

text \<open>
  The claim as stated fails: the attribute map \<^verbatim>\<open>{id: "1"}\<close> under the key
  \<^verbatim>\<open>{id: "1"}\<close> is empty after the exclusion, the request is sent all the same, and
  with a store that accepts it the call returns \<^verbatim>\<open>{id: "1"}\<close>.
\<close>

theorem update_empty_is_sent:
  "result (updateWithAttributes (plain_adapter accepting_client) ''2019-05-01T10:00:00.000Z''
          (update_request key_1) [(''id'', JStr ''1'')]) = Inr [(''id'', JStr ''1'')] \<and>
   sent (updateWithAttributes (plain_adapter accepting_client) ''2019-05-01T10:00:00.000Z''
          (update_request key_1) [(''id'', JStr ''1'')]) =
     [\<lparr> TableName = Present ''shifts'', Key = Present [(''id'', JStr ''1'')], Item = Absent,
        ProjectionExpression = Absent, ConditionExpression = Absent,
        UpdateExpression = Present ''  '',
        ExpressionAttributeNames = Present [],
        ExpressionAttributeValues = Absent,
        ReturnConsumedCapacity = Present ''INDEXES'' \<rparr>]"
  by (simp add: run_update)

section \<open>The stamps of create\<close>

text \<open>
  C9, as the code has it. With a schema that manages \<^verbatim>\<open>updated\<close>, a create that the
  store accepts returns \<^verbatim>\<open>updated\<close> equal to the item's \<^verbatim>\<open>created\<close> field whenever
  that field is truthy when \<^verbatim>\<open>updated\<close> is stamped: the stamp of this call when the
  schema manages \<^verbatim>\<open>created\<close>, the caller's own value when it does not. Only an item
  without a truthy \<^verbatim>\<open>created\<close> gets the time of the second reading of the clock. With
  both fields managed the result has \<^verbatim>\<open>created\<close> equal to \<^verbatim>\<open>updated\<close>. The time
  stamps are ISO strings, which are never empty.
\<close>

theorem create_updated_follows_created:
  assumes item: "Item item = Present it"
    and upd: "manages ad ''updated''"
    and iso: "t_created \<noteq> []"
    and ok: "\<forall>ps. client_put (doc ad) ps = Inr ()"
  shows "\<exists>r. result (create ad uuid t_created t_updated item itemId) = Inr r \<and>
           get_prop r ''updated'' =
             (if manages ad ''created'' then JStr t_created
              else if truthy (get_prop it ''created'') then get_prop it ''created''
              else JStr t_updated) \<and>
           (manages ad ''created'' \<longrightarrow> get_prop r ''created'' = get_prop r ''updated'')"
proof -
  let ?it = "create_stamp ad (create_id itemId uuid) t_created t_updated it"
  have res: "result (create ad uuid t_created t_updated item itemId) =
      Inr (create_respondData ad ?it)"
    using create_Present(3) [OF item, of ad uuid t_created t_updated itemId] ok by simp
  have u: "get_prop ?it ''updated'' =
      (if manages ad ''created'' then JStr t_created
       else if truthy (get_prop it ''created'') then get_prop it ''created''
       else JStr t_updated)"
    using upd iso by (simp add: create_stamp_updated create_stamp_created)
  have c: "get_prop ?it ''created'' = JStr t_created" if "manages ad ''created''"
    using that by (simp add: create_stamp_created)
  show ?thesis
    unfolding res
    using u c upd
    by (simp add: create_respondData_updated create_respondData_created)
qed

theorem create_updated_follows_created_witness:
  "result (create (schema_adapter [(''created'', JBool True), (''updated'', JBool True)]
        accepting_client)
     ''uuid-1'' ''2019-05-01T10:00:00.000Z'' ''2019-05-01T10:00:00.001Z''
     (put_request [(''name'', JStr ''Bob'')]) None) =
   Inr [(''updated'', JStr ''2019-05-01T10:00:00.000Z''),
        (''created'', JStr ''2019-05-01T10:00:00.000Z'')]"
proof -
  let ?ad = "schema_adapter [(''created'', JBool True), (''updated'', JBool True)] accepting_client"
  have a: "Item (put_request [(''name'', JStr ''Bob'')]) = Present [(''name'', JStr ''Bob'')]"
    by (simp add: put_request_def no_params_def)
  have b: "manages ?ad ''updated''"
    by (simp add: manages_def schema_adapter_def get_prop_def)
  have c: "''2019-05-01T10:00:00.000Z'' \<noteq> []" by simp
  have d: "\<forall>ps. client_put (doc ?ad) ps = Inr ()"
    by (simp add: schema_adapter_def accepting_client_def)
  from create_updated_follows_created [OF a b c d, of "''uuid-1''"
      "''2019-05-01T10:00:00.001Z''" None]
  show ?thesis
    by (simp add: create_def create_id_def create_stamp_def create_respondData_def Let_def
        manages_def schema_adapter_def accepting_client_def get_prop_def put_request_def
        no_params_def extendParams_def)
qed

text \<open>
  The claim as stated fails where the schema manages \<^verbatim>\<open>updated\<close> only and the caller
  supplies \<^verbatim>\<open>created\<close>: the result's \<^verbatim>\<open>updated\<close> is the caller's value, not the time
  of the call.
\<close>

theorem create_updated_from_caller_created:
  "result (create (schema_adapter [(''updated'', JBool True)] accepting_client)
     ''uuid-1'' ''2019-05-01T10:00:00.000Z'' ''2019-05-01T10:00:00.001Z''
     (put_request [(''created'', JStr ''2001-01-01T00:00:00.000Z'')]) None) =
   Inr [(''updated'', JStr ''2001-01-01T00:00:00.000Z'')]"
  by (simp add: create_def create_id_def create_stamp_def create_respondData_def Let_def
      manages_def schema_adapter_def accepting_client_def get_prop_def put_request_def
      no_params_def extendParams_def)

section \<open>Writing into the caller's objects\<close>

text \<open>
  \<^verbatim>\<open>create\<close> and \<^verbatim>\<open>updateWithAttributes\<close> write into the attribute map they are
  given. After \<^verbatim>\<open>create\<close> the caller's map holds the identifier, \<^verbatim>\<open>created\<close> and
  \<^verbatim>\<open>updated\<close> as far as the schema manages them, every other field as it was, and it
  is the map the request carries. After \<^verbatim>\<open>updateWithAttributes\<close> the caller's map
  holds the stamp of \<^verbatim>\<open>updated\<close> when the schema manages it, and has lost exactly the
  fields that are named like a field of the key and have a truthy value. Both hold
  whatever the store answers.
\<close>

lemma writes_into_caller_objects:
  "(Item request = Present it \<longrightarrow>
      (let it' = caller_item (create ad uuid t_created t_updated request itemId)
       in (manages ad ''id'' \<longrightarrow> get_prop it' ''id'' = JStr (create_id itemId uuid)) \<and>
          (manages ad ''created'' \<longrightarrow> get_prop it' ''created'' = JStr t_created) \<and>
          (manages ad ''updated'' \<longrightarrow>
             get_prop it' ''updated'' =
               (if truthy (get_prop it' ''created'') then get_prop it' ''created''
                else JStr t_updated)) \<and>
          (\<forall>f. f \<noteq> ''id'' \<and> f \<noteq> ''created'' \<and> f \<noteq> ''updated'' \<longrightarrow>
                 get_prop it' f = get_prop it f) \<and>
          map Item (sent (create ad uuid t_created t_updated request itemId)) = [Present it'])) \<and>
   (Key originParams = Present key \<longrightarrow>
      (let item' = caller_item (updateWithAttributes ad now originParams item);
           stamped = (\<lambda>f. if f = ''updated'' \<and> manages ad ''updated'' then JStr now
                           else get_prop item f)
       in (\<forall>f. get_prop item' f =
                  (if f \<in> set (Object_keys key) \<and> truthy (stamped f) then JUndefined
                   else stamped f)) \<and>
          (\<forall>f. f \<in> set (Object_keys item') \<longleftrightarrow>
                  (f \<in> set (Object_keys item) \<or> f = ''updated'' \<and> manages ad ''updated'') \<and>
                  \<not> (f \<in> set (Object_keys key) \<and> truthy (stamped f)))))"
proof (intro conjI impI)
  assume item: "Item request = Present it"
  let ?it = "create_stamp ad (create_id itemId uuid) t_created t_updated it"
  have ci: "caller_item (create ad uuid t_created t_updated request itemId) = ?it"
    by (rule create_Present(1) [OF item])
  have sent: "map Item (sent (create ad uuid t_created t_updated request itemId)) = [Present ?it]"
    using create_Present(2) [OF item, of ad uuid t_created t_updated itemId]
    by (simp add: extendParams_def)
  show "let it' = caller_item (create ad uuid t_created t_updated request itemId)
       in (manages ad ''id'' \<longrightarrow> get_prop it' ''id'' = JStr (create_id itemId uuid)) \<and>
          (manages ad ''created'' \<longrightarrow> get_prop it' ''created'' = JStr t_created) \<and>
          (manages ad ''updated'' \<longrightarrow>
             get_prop it' ''updated'' =
               (if truthy (get_prop it' ''created'') then get_prop it' ''created''
                else JStr t_updated)) \<and>
          (\<forall>f. f \<noteq> ''id'' \<and> f \<noteq> ''created'' \<and> f \<noteq> ''updated'' \<longrightarrow>
                 get_prop it' f = get_prop it f) \<and>
          map Item (sent (create ad uuid t_created t_updated request itemId)) = [Present it']"
    unfolding Let_def ci sent
    using create_stamp_updated [of ad "create_id itemId uuid" t_created t_updated it]
    by (simp add: create_stamp_id create_stamp_created create_stamp_other)
next
  assume key: "Key originParams = Present key"
  have ci: "caller_item (updateWithAttributes ad now originParams item) = surviving ad now key item"
    by (rule updateWithAttributes_Present(2) [OF key])
  show "let item' = caller_item (updateWithAttributes ad now originParams item);
           stamped = (\<lambda>f. if f = ''updated'' \<and> manages ad ''updated'' then JStr now
                           else get_prop item f)
       in (\<forall>f. get_prop item' f =
                  (if f \<in> set (Object_keys key) \<and> truthy (stamped f) then JUndefined
                   else stamped f)) \<and>
          (\<forall>f. f \<in> set (Object_keys item') \<longleftrightarrow>
                  (f \<in> set (Object_keys item) \<or> f = ''updated'' \<and> manages ad ''updated'') \<and>
                  \<not> (f \<in> set (Object_keys key) \<and> truthy (stamped f)))"
    unfolding Let_def ci
    by (auto simp: surviving_get_prop surviving_keys stamp_updated_get_prop stamp_updated_keys)
qed

lemma writes_into_caller_objects_example:
  "get_prop (caller_item (create (schema_adapter [(''id'', JBool True), (''created'', JBool True),
        (''updated'', JBool True)] accepting_client)
     ''uuid-1'' ''2019-05-01T10:00:00.000Z'' ''2019-05-01T10:00:00.001Z''
     (put_request [(''name'', JStr ''Bob'')]) None)) ''id'' = JStr ''uuid-1'' \<and>
   get_prop (caller_item (create (schema_adapter [(''id'', JBool True), (''created'', JBool True),
        (''updated'', JBool True)] accepting_client)
     ''uuid-1'' ''2019-05-01T10:00:00.000Z'' ''2019-05-01T10:00:00.001Z''
     (put_request [(''name'', JStr ''Bob'')]) None)) ''created'' = JStr ''2019-05-01T10:00:00.000Z'' \<and>
   get_prop (caller_item (updateWithAttributes
        (schema_adapter [(''updated'', JBool True)] accepting_client)
     ''2019-05-01T10:00:00.000Z'' (update_request key_1)
     [(''id'', JStr ''1''), (''name'', JStr ''Bob'')])) ''id'' = JUndefined \<and>
   get_prop (caller_item (updateWithAttributes
        (schema_adapter [(''updated'', JBool True)] accepting_client)
     ''2019-05-01T10:00:00.000Z'' (update_request key_1)
     [(''id'', JStr ''1''), (''name'', JStr ''Bob'')])) ''updated'' =
     JStr ''2019-05-01T10:00:00.000Z''"
proof -
  let ?ad1 = "schema_adapter [(''id'', JBool True), (''created'', JBool True),
        (''updated'', JBool True)] accepting_client"
  let ?ad2 = "schema_adapter [(''updated'', JBool True)] accepting_client"
  let ?now = "''2019-05-01T10:00:00.000Z''"
  let ?item = "[(''id'', JStr ''1''), (''name'', JStr ''Bob'')]"
  have a: "Item (put_request [(''name'', JStr ''Bob'')]) = Present [(''name'', JStr ''Bob'')]"
    by (simp add: put_request_def no_params_def)
  have b: "Key (update_request key_1) = Present key_1"
    by (simp add: update_request_def no_params_def)
  have m1: "manages ?ad1 ''id''" and m2: "manages ?ad1 ''created''"
    and m3: "manages ?ad2 ''updated''"
    by (simp_all add: manages_def schema_adapter_def get_prop_def)
  have cid: "create_id None ''uuid-1'' = ''uuid-1''"
    by (simp add: create_id_def)
  note w = writes_into_caller_objects [where request = "put_request [(''name'', JStr ''Bob'')]"
      and it = "[(''name'', JStr ''Bob'')]" and originParams = "update_request key_1"
      and key = key_1]
  note w1 = w [where ad = ?ad1 and uuid = "''uuid-1''" and t_created = ?now
      and t_updated = "''2019-05-01T10:00:00.001Z''" and itemId = None,
      THEN conjunct1, rule_format, OF a, unfolded Let_def cid]
  note w2 = w [where ad = ?ad2 and now = ?now and item = ?item,
      THEN conjunct2, rule_format, OF b, unfolded Let_def, THEN conjunct1, rule_format]
  have k: "''id'' \<in> set (Object_keys key_1)" "''updated'' \<notin> set (Object_keys key_1)"
    by (simp_all add: key_1_def Object_keys_def)
  have g: "get_prop ?item ''id'' = JStr ''1''"
    by (simp add: get_prop_def)
  from w1 m1 m2 have c1: "get_prop (caller_item (create ?ad1 ''uuid-1'' ?now
      ''2019-05-01T10:00:00.001Z'' (put_request [(''name'', JStr ''Bob'')]) None)) ''id''
      = JStr ''uuid-1''"
    and c2: "get_prop (caller_item (create ?ad1 ''uuid-1'' ?now
      ''2019-05-01T10:00:00.001Z'' (put_request [(''name'', JStr ''Bob'')]) None)) ''created''
      = JStr ?now"
    by blast+
  have u1: "get_prop (caller_item (updateWithAttributes ?ad2 ?now (update_request key_1) ?item))
      ''id'' = JUndefined"
    unfolding w2 [of "''id''"] using k g by simp
  have u2: "get_prop (caller_item (updateWithAttributes ?ad2 ?now (update_request key_1) ?item))
      ''updated'' = JStr ?now"
    unfolding w2 [of "''updated''"] using k m3 by simp
  from c1 c2 u1 u2 show ?thesis by blast
qed

text \<open>
  C10. Every operation that stamps a field should leave the stamp in the caller's own
  attribute map. \<^verbatim>\<open>create\<close> and \<^verbatim>\<open>updateWithAttributes\<close> do. \<^verbatim>\<open>update\<close> does not:
  with a schema that manages \<^verbatim>\<open>updated\<close> it never changes the field \<^verbatim>\<open>updated\<close> of
  the caller's map, and on a map without an attribute named \<^verbatim>\<open>Item\<close> it throws a
  \<^verbatim>\<open>TypeError\<close>, sends nothing and leaves the map as it was.
\<close>

theorem update_misses_the_stamp:
  assumes item: "Item item = Present it"
    and upd: "manages ad ''updated''"
  shows "get_prop (caller_item (update ad now item)) ''updated'' = get_prop it ''updated'' \<and>
         (get_prop it ''Item'' = JUndefined \<longrightarrow>
            result (update ad now item) = Inl TypeError \<and>
            sent (update ad now item) = [] \<and>
            caller_item (update ad now item) = it)"
proof -
  have same: "get_prop (caller_item (update ad now item)) ''updated'' = get_prop it ''updated''"
    using item upd update_stamp_keeps_updated [of now it]
    by (auto simp: update_def Let_def split: sum.splits)
  have throws: "result (update ad now item) = Inl TypeError \<and>
      sent (update ad now item) = [] \<and> caller_item (update ad now item) = it"
    if "get_prop it ''Item'' = JUndefined"
  proof -
    from that have "update_stamp now it = Inl TypeError"
      by (simp add: update_stamp_def)
    with item upd show ?thesis by (simp add: update_def)
  qed
  from same throws show ?thesis by blast
qed

theorem update_misses_the_stamp_witness:
  "result (update (schema_adapter [(''updated'', JBool True)] accepting_client)
      ''2019-05-01T10:00:00.000Z''
      (put_request [(''id'', JStr ''1''), (''name'', JStr ''Bob'')])) = Inl TypeError \<and>
   sent (update (schema_adapter [(''updated'', JBool True)] accepting_client)
      ''2019-05-01T10:00:00.000Z''
      (put_request [(''id'', JStr ''1''), (''name'', JStr ''Bob'')])) = [] \<and>
   caller_item (update (schema_adapter [(''updated'', JBool True)] accepting_client)
      ''2019-05-01T10:00:00.000Z''
      (put_request [(''id'', JStr ''1''), (''name'', JStr ''Bob'')])) =
     [(''id'', JStr ''1''), (''name'', JStr ''Bob'')]"
proof -
  let ?ad = "schema_adapter [(''updated'', JBool True)] accepting_client"
  let ?it = "[(''id'', JStr ''1''), (''name'', JStr ''Bob'')]"
  have a: "Item (put_request ?it) = Present ?it"
    by (simp add: put_request_def no_params_def)
  have b: "manages ?ad ''updated''"
    by (simp add: manages_def schema_adapter_def get_prop_def)
  have c: "get_prop ?it ''Item'' = JUndefined"
    by (simp add: get_prop_def)
  from update_misses_the_stamp [OF a b, of "''2019-05-01T10:00:00.000Z''",
      THEN conjunct2, rule_format, OF c]
  show ?thesis .
qed

end
